theory Spec2Isabelle
  imports Main "HOL-Library.AList" "HOL-Library.Char_ord" "HOL-Library.List_Lexorder"
begin

section \<open>Python values used by \<open>microros_utils/library_builder.py\<close>\<close>

text \<open>
  The exceptions the modelled code can raise, and the ways a call can end.  A call either
  returns, raises, or leaves the process through \<open>sys.exit\<close>.
\<close>

datatype py_exc =
    KeyError | TypeError | IndexError | AttributeError
  | YAMLError | OSError | ShutilError

datatype abort = Raised py_exc | Exit int

text \<open>\<open>str.endswith\<close>: the string ends with the given suffix.\<close>

definition endswith :: "string \<Rightarrow> string \<Rightarrow> bool" where
  "endswith s suf \<longleftrightarrow> length suf \<le> length s \<and> drop (length s - length suf) s = suf"

section \<open>Packages and the ignore operation\<close>

text \<open>
  Modelled from the spec: the class \<open>Package\<close> of \<open>microros_utils/repositories.py\<close>,
  which is not among the sources.  The spec gives a package a name, the path of its
  owning source and a mutable flag \<open>ignored\<close>; \<open>ignore()\<close> marks the package, and nothing
  ever unmarks it.
\<close>

record package =
  name :: string
  path :: string
  ignored :: bool

definition ignore :: "package \<Rightarrow> package" where
  "ignore p = p\<lparr>ignored := True\<rparr>"

text \<open>
  \<open>Package\<close> objects are mutable and are held by reference in the lists
  \<open>self.dev_packages\<close> and \<open>self.mcu_packages\<close> (both created empty, as two separate
  lists, by \<open>Build.__init__\<close>).  The model keeps the objects in a store, a list indexed
  by address, and the two lists as lists of addresses, so that an object reachable from
  both lists is one object.  Creating an object appends it to the store.
\<close>

type_synonym addr = nat
type_synonym store = "package list"

record registry =
  objects :: store
  dev_packages :: "addr list"
  mcu_packages :: "addr list"

definition init_registry :: registry where
  "init_registry = \<lparr>objects = [], dev_packages = [], mcu_packages = []\<rparr>"

text \<open>
  One iteration of \<open>for p in self.mcu_packages: if p.name == name: p.ignore()\<close>.
  Every address in the list refers to a live object; a dangling address cannot occur in
  Python and is skipped here.
\<close>

definition ignore_if_named :: "string \<Rightarrow> addr \<Rightarrow> store \<Rightarrow> store" where
  "ignore_if_named n a h =
     (if a < length h \<and> name (h ! a) = n then h[a := ignore (h ! a)] else h)"

definition ignore_package :: "string \<Rightarrow> registry \<Rightarrow> registry" where
  "ignore_package n r = r\<lparr>objects := fold (ignore_if_named n) (mcu_packages r) (objects r)\<rparr>"

text \<open>
  \<open>Build.download_mcu_environment\<close>, for one repository of
  \<open>Sources.mcu_environments[self.distro]\<close>.  The repository class and the tables of
  \<open>Sources\<close> are not among the sources: the default ignore-list of the profile is the
  parameter \<open>ignore_list\<close>, and \<open>repo.get_packages()\<close>, which the code calls twice, is the
  parameter \<open>get_packages\<close>, a function that returns the addresses of the discovered
  packages and may create objects.  The first result is appended to
  \<open>self.mcu_packages\<close>, the packages of the second one are marked.  \<open>repo.clone\<close>, which
  fetches the sources, has no part in the package lists.
\<close>

type_synonym discovery = "store \<Rightarrow> addr list \<times> store"

definition auto_ignored :: "string list \<Rightarrow> string \<Rightarrow> bool" where
  "auto_ignored ignore_list n \<longleftrightarrow> n \<in> set ignore_list \<or> endswith n ''_cpp''"

definition mark_discovered :: "string list \<Rightarrow> addr \<Rightarrow> store \<Rightarrow> store" where
  "mark_discovered ignore_list a h =
     (if a < length h \<and> auto_ignored ignore_list (name (h ! a)) then h[a := ignore (h ! a)] else h)"

definition download_repo :: "string list \<Rightarrow> discovery \<Rightarrow> registry \<Rightarrow> registry" where
  "download_repo ignore_list get_packages r =
     (let (first, h1) = get_packages (objects r);
          (second, h2) = get_packages h1
      in r\<lparr>objects := fold (mark_discovered ignore_list) second h2,
           mcu_packages := mcu_packages r @ first\<rparr>)"

text \<open>The loop over the repositories of the profile, each given by its discovery.\<close>

definition download_mcu_repos :: "string list \<Rightarrow> discovery list \<Rightarrow> registry \<Rightarrow> registry" where
  "download_mcu_repos ignore_list repos r = fold (download_repo ignore_list) repos r"

text \<open>
  The packages that the marking loop of \<open>download_repo\<close> visits (the result of the second
  call of \<open>get_packages\<close>) and the store as that call left it.
\<close>

definition discovered :: "discovery \<Rightarrow> registry \<Rightarrow> addr list \<times> store" where
  "discovered get_packages r = get_packages (snd (get_packages (objects r)))"

text \<open>
  A discovery that finds the packages \<open>ps\<close>, given by name and path, and creates a new
  object for each of them at every call, the way a scan of the cloned directory does.
\<close>

definition scan :: "(string \<times> string) list \<Rightarrow> discovery" where
  "scan ps h =
     ([length h ..< length h + length ps],
      h @ map (\<lambda>(n, p). \<lparr>name = n, path = p, ignored = False\<rparr>) ps)"

text \<open>
  A discovery that keeps one object for each package: it creates an object only when
  the store holds none with that name and path, so that every call returns the same
  objects.
\<close>

definition find_or_create :: "string \<times> string \<Rightarrow> addr list \<times> store \<Rightarrow> addr list \<times> store" where
  "find_or_create np st =
     (case filter (\<lambda>i. name (snd st ! i) = fst np \<and> path (snd st ! i) = snd np) [0 ..< length (snd st)] of
        [] \<Rightarrow>
          (fst st @ [length (snd st)],
           snd st @ [\<lparr>name = fst np, path = snd np, ignored = False\<rparr>])
      | i # others \<Rightarrow> (fst st @ [i], snd st))"

definition cached_scan :: "(string \<times> string) list \<Rightarrow> discovery" where
  "cached_scan ps h = fold find_or_create ps ([], h)"

text \<open>
  A discovery is repeatable on a store when its second call returns the objects of the
  first one and creates none.  Then the packages appended to \<open>self.mcu_packages\<close> are the
  ones the marking loop visits.
\<close>

definition repeatable :: "discovery \<Rightarrow> store \<Rightarrow> bool" where
  "repeatable get_packages h \<longleftrightarrow> get_packages (snd (get_packages h)) = get_packages h"

text \<open>A registry with two target-stage packages and one dev-stage package.\<close>

definition example_registry :: registry where
  "example_registry =
     \<lparr>objects =
        [\<lparr>name = ''rcl'', path = ''mcu/src/rcl/rcl'', ignored = False\<rparr>,
         \<lparr>name = ''rclc'', path = ''mcu/src/rclc/rclc'', ignored = False\<rparr>,
         \<lparr>name = ''rcl'', path = ''dev/src/rcl/rcl'', ignored = False\<rparr>],
      dev_packages = [2],
      mcu_packages = [0, 1]\<rparr>"

section \<open>Environment setup\<close>

text \<open>
  \<open>str.replace(old, new)\<close>: the occurrences of \<open>old\<close> are found from left to right and
  do not overlap.  For an empty \<open>old\<close> Python puts \<open>new\<close> before every character and at
  the end.
\<close>

function replace_from :: "string \<Rightarrow> string \<Rightarrow> string \<Rightarrow> string" where
  "replace_from old new s =
     (if old = [] \<or> s = [] then s
      else if take (length old) s = old then new @ replace_from old new (drop (length old) s)
      else hd s # replace_from old new (tl s))"
  by pat_completeness auto
termination
  by (relation "measure (\<lambda>(old, new, s). length s)") auto

definition py_replace :: "string \<Rightarrow> string \<Rightarrow> string \<Rightarrow> string" where
  "py_replace old new s =
     (if old = [] then new @ concat (map (\<lambda>c. c # new) s) else replace_from old new s)"

text \<open>
  The truth value of what \<open>os.getenv\<close> returns: \<open>None\<close> for a variable that is not set,
  and the empty string, are false.
\<close>

definition getenv_truthy :: "string option \<Rightarrow> bool" where
  "getenv_truthy v \<longleftrightarrow> (case v of None \<Rightarrow> False | Some s \<Rightarrow> s \<noteq> [])"

text \<open>
  The process environment \<open>os.environ\<close> and the copy \<open>self.env\<close> that the build commands
  receive.
\<close>

record process =
  environ :: "string \<Rightarrow> string option"
  env :: "string \<Rightarrow> string option"

definition ros_bin_segment :: "string \<Rightarrow> string" where
  "ros_bin_segment distro = ''/opt/ros/'' @ distro @ ''/bin:''"

text \<open>
  The first block of \<open>Build.check_env\<close>.  \<open>PATH.replace\<close> on the \<open>None\<close> that
  \<open>os.getenv('PATH')\<close> returns for an unset variable raises \<open>AttributeError\<close>.
\<close>

definition scrub_ros :: "(string \<Rightarrow> string option) \<Rightarrow> py_exc + (string \<Rightarrow> string option)" where
  "scrub_ros e =
     (case e ''ROS_DISTRO'' of
        None \<Rightarrow> Inr e
      | Some distro \<Rightarrow>
          if distro = [] then Inr e
          else (case e ''PATH'' of
                  None \<Rightarrow> Inl AttributeError
                | Some p \<Rightarrow>
                    Inr ((e(''PATH'' \<mapsto> py_replace (ros_bin_segment distro) [] p))
                           (''AMENT_PREFIX_PATH'' := None))))"

definition force_rmw :: "(string \<Rightarrow> string option) \<Rightarrow> (string \<Rightarrow> string option)" where
  "force_rmw e =
     (if getenv_truthy (e ''RMW_IMPLEMENTATION'')
      then e(''RMW_IMPLEMENTATION'' \<mapsto> ''rmw_microxrcedds'') else e)"

text \<open>
  The \<open>try\<close> block at the end of \<open>check_env\<close>: \<open>pycache\<close> is what
  \<open>os.path.abspath\<close> and \<open>os.makedirs\<close> give, the absolute path of the cache directory
  when they succeed and \<open>None\<close> when one of them raises.  The handler
  \<open>except Exception: pass\<close> then leaves the copied environment as it is.
\<close>

definition redirect_pycache :: "string option \<Rightarrow> (string \<Rightarrow> string option) \<Rightarrow> (string \<Rightarrow> string option)" where
  "redirect_pycache pycache e =
     (case pycache of
        None \<Rightarrow> e
      | Some dir \<Rightarrow> e(''PYTHONPYCACHEPREFIX'' \<mapsto> dir, ''PYTHONDONTWRITEBYTECODE'' \<mapsto> ''1''))"

definition check_env :: "string option \<Rightarrow> process \<Rightarrow> py_exc + process" where
  "check_env pycache s =
     (case scrub_ros (environ s) of
        Inl x \<Rightarrow> Inl x
      | Inr e1 \<Rightarrow>
          let e2 = force_rmw e1
          in Inr (s\<lparr>environ := e2, env := redirect_pycache pycache e2\<rparr>))"

text \<open>Three environments a shell can start the build with.\<close>

definition env_rmw_empty :: process where
  "env_rmw_empty = \<lparr>environ = [''RMW_IMPLEMENTATION'' \<mapsto> ''''], env = Map.empty\<rparr>"

definition env_ros_last :: process where
  "env_ros_last =
     \<lparr>environ = [''ROS_DISTRO'' \<mapsto> ''humble'', ''PATH'' \<mapsto> ''/usr/bin:/opt/ros/humble/bin'',
                 ''AMENT_PREFIX_PATH'' \<mapsto> ''/opt/ros/humble''],
      env = Map.empty\<rparr>"

definition env_ros_no_path :: process where
  "env_ros_no_path = \<lparr>environ = [''ROS_DISTRO'' \<mapsto> ''humble''], env = Map.empty\<rparr>"

definition env_ros_sourced :: process where
  "env_ros_sourced =
     \<lparr>environ = [''ROS_DISTRO'' \<mapsto> ''humble'', ''PATH'' \<mapsto> ''/opt/ros/humble/bin:/usr/bin'',
                 ''AMENT_PREFIX_PATH'' \<mapsto> ''/opt/ros/humble'',
                 ''RMW_IMPLEMENTATION'' \<mapsto> ''rmw_fastrtps_cpp''],
      env = Map.empty\<rparr>"

text \<open>What \<open>os.getenv\<close> gives after a call, when the call returned.\<close>

definition getenv_after :: "py_exc + process \<Rightarrow> string \<Rightarrow> py_exc + string option" where
  "getenv_after r k = (case r of Inl x \<Rightarrow> Inl x | Inr s \<Rightarrow> Inr (environ s k))"

section \<open>The extra-packages manifest\<close>

text \<open>
  What \<open>yaml.safe_load\<close> returns: \<open>None\<close>, booleans, integers, strings, lists and
  dicts (floats, dates and binary values are left out).  A dict is an association list
  in insertion order, with the invariant of a Python dict: its keys are hashable and
  pairwise different.
\<close>

datatype yaml =
    YNull
  | YBool bool
  | YInt int
  | YStr string
  | YList "yaml list"
  | YMap "(yaml \<times> yaml) list"

text \<open>Key equality of dicts: \<open>True\<close> and \<open>1\<close>, \<open>False\<close> and \<open>0\<close> are the same key.\<close>

fun py_key :: "yaml \<Rightarrow> yaml" where
  "py_key (YBool b) = YInt (if b then 1 else 0)"
| "py_key k = k"

fun hashable :: "yaml \<Rightarrow> bool" where
  "hashable (YList xs) = False"
| "hashable (YMap kvs) = False"
| "hashable k = True"

definition dict_get :: "(yaml \<times> 'v) list \<Rightarrow> yaml \<Rightarrow> 'v option" where
  "dict_get kvs k = map_of (map (\<lambda>(k', v). (py_key k', v)) kvs) (py_key k)"

text \<open>\<open>d[k] = v\<close>: an existing key keeps its place, a new one goes to the end.\<close>

fun dict_set :: "yaml \<Rightarrow> 'v \<Rightarrow> (yaml \<times> 'v) list \<Rightarrow> (yaml \<times> 'v) list" where
  "dict_set k v [] = [(k, v)]"
| "dict_set k v ((k', v') # kvs) =
     (if py_key k' = py_key k then (k', v) # kvs else (k', v') # dict_set k v kvs)"

text \<open>Indexing a sequence: a negative index counts from the end.\<close>

definition py_index :: "'a list \<Rightarrow> int \<Rightarrow> py_exc + 'a" where
  "py_index xs i =
     (if 0 \<le> i \<and> i < int (length xs) then Inr (xs ! nat i)
      else if i < 0 \<and> - int (length xs) \<le> i then Inr (xs ! nat (int (length xs) + i))
      else Inl IndexError)"

text \<open>
  The subscript \<open>obj[key]\<close>.  A dict raises \<open>KeyError\<close> for a missing key and
  \<open>TypeError\<close> for an unhashable one; a list or a string takes integers (and booleans,
  which are integers) and raises \<open>TypeError\<close> for any other key; \<open>None\<close>, booleans and
  integers are not subscriptable.
\<close>

fun py_getitem :: "yaml \<Rightarrow> yaml \<Rightarrow> py_exc + yaml" where
  "py_getitem (YMap kvs) k =
     (if hashable k
      then (case dict_get kvs k of None \<Rightarrow> Inl KeyError | Some v \<Rightarrow> Inr v)
      else Inl TypeError)"
| "py_getitem (YList xs) (YInt i) = py_index xs i"
| "py_getitem (YList xs) (YBool b) = py_index xs (if b then 1 else 0)"
| "py_getitem (YStr s) (YInt i) = map_sum id (\<lambda>c. YStr [c]) (py_index s i)"
| "py_getitem (YStr s) (YBool b) = map_sum id (\<lambda>c. YStr [c]) (py_index s (if b then 1 else 0))"
| "py_getitem obj k = Inl TypeError"

fun py_truthy :: "yaml \<Rightarrow> bool" where
  "py_truthy YNull = False"
| "py_truthy (YBool b) = b"
| "py_truthy (YInt i) = (i \<noteq> 0)"
| "py_truthy (YStr s) = (s \<noteq> [])"
| "py_truthy (YList xs) = (xs \<noteq> [])"
| "py_truthy (YMap kvs) = (kvs \<noteq> [])"

text \<open>What a \<open>for\<close> loop runs over: the keys of a dict, the elements of a list, the
  characters of a string; anything else is not iterable.\<close>

fun py_iter :: "yaml \<Rightarrow> py_exc + yaml list" where
  "py_iter (YMap kvs) = Inr (map fst kvs)"
| "py_iter (YList xs) = Inr xs"
| "py_iter (YStr s) = Inr (map (\<lambda>c. YStr [c]) s)"
| "py_iter obj = Inl TypeError"

text \<open>The test \<open>'version' in obj\<close>, for a string on the left.\<close>

fun str_in :: "string \<Rightarrow> yaml \<Rightarrow> py_exc + bool" where
  "str_in k (YMap kvs) = Inr (dict_get kvs (YStr k) \<noteq> None)"
| "str_in k (YList xs) = Inr (YStr k \<in> set xs)"
| "str_in k (YStr s) = Inr (list_ex (\<lambda>i. take (length k) (drop i s) = k) [0..<Suc (length s)])"
| "str_in k obj = Inl TypeError"

text \<open>
  The body of the inner \<open>try\<close> of \<open>Build.get_repositories_from_yaml\<close>: the dict \<open>repo\<close>
  built from the attributes of one entry.
\<close>

type_synonym repo = "(string \<times> yaml) list"

definition resolve_entry :: "yaml \<Rightarrow> py_exc + repo" where
  "resolve_entry attributes =
     (case py_getitem attributes (YStr ''type'') of
        Inl x \<Rightarrow> Inl x
      | Inr t \<Rightarrow>
          (case py_getitem attributes (YStr ''url'') of
             Inl x \<Rightarrow> Inl x
           | Inr u \<Rightarrow>
               (case str_in ''version'' attributes of
                  Inl x \<Rightarrow> Inl x
                | Inr False \<Rightarrow> Inr [(''type'', t), (''url'', u)]
                | Inr True \<Rightarrow>
                    (case py_getitem attributes (YStr ''version'') of
                       Inl x \<Rightarrow> Inl x
                     | Inr v \<Rightarrow> Inr [(''type'', t), (''url'', u), (''version'', v)]))))"

text \<open>
  The loop \<open>for path in repositories\<close>.  The subscript \<open>repositories[path]\<close> stands
  outside the inner \<open>try\<close>; the inner handler catches \<open>KeyError\<close> only and goes on with
  the next entry; any other exception leaves the loop.  The result is the dict \<open>repos\<close>
  as it stands, and the exception that is on its way, if any.
\<close>

fun load_entries :: "yaml \<Rightarrow> yaml list \<Rightarrow> (yaml \<times> repo) list \<Rightarrow> (yaml \<times> repo) list \<times> py_exc option" where
  "load_entries repositories [] repos = (repos, None)"
| "load_entries repositories (rpath # paths) repos =
     (case py_getitem repositories rpath of
        Inl x \<Rightarrow> (repos, Some x)
      | Inr attributes \<Rightarrow>
          (case resolve_entry attributes of
             Inl x \<Rightarrow>
               if x = KeyError then load_entries repositories paths repos
               else (repos, Some x)
           | Inr repo \<Rightarrow> load_entries repositories paths (dict_set rpath repo repos)))"

text \<open>
  The file behind the path: \<open>open\<close> fails, or \<open>yaml.safe_load\<close> rejects the text, or it
  returns a value (\<open>None\<close> for an empty document).
\<close>

datatype document = Unreadable | Malformed | Parsed yaml

definition load_body :: "document \<Rightarrow> (yaml \<times> repo) list \<times> py_exc option" where
  "load_body doc =
     (case doc of
        Unreadable \<Rightarrow> ([], Some OSError)
      | Malformed \<Rightarrow> ([], Some YAMLError)
      | Parsed root \<Rightarrow>
          (case py_getitem root (YStr ''repositories'') of
             Inl x \<Rightarrow> ([], Some x)
           | Inr repositories \<Rightarrow>
               if py_truthy repositories
               then (case py_iter repositories of
                       Inl x \<Rightarrow> ([], Some x)
                     | Inr paths \<Rightarrow> load_entries repositories paths [])
               else ([], None)))"

text \<open>
  The handler \<open>except (yaml.YAMLError, KeyError, TypeError)\<close> prints and ends the
  exception; another exception stays on its way.  The \<open>return repos\<close> of the \<open>finally\<close>
  block then ends the call with \<open>repos\<close> in either case: a \<open>return\<close> in \<open>finally\<close>
  drops the exception that is on its way.
\<close>

definition handled :: "py_exc \<Rightarrow> bool" where
  "handled x \<longleftrightarrow> x = YAMLError \<or> x = KeyError \<or> x = TypeError"

definition finally_return :: "'a \<Rightarrow> py_exc option \<Rightarrow> py_exc + 'a" where
  "finally_return v pending = Inr v"

definition get_repositories_from_yaml :: "document \<Rightarrow> py_exc + (yaml \<times> repo) list" where
  "get_repositories_from_yaml doc =
     (let (repos, raised) = load_body doc;
          pending = (case raised of
                       None \<Rightarrow> None
                     | Some x \<Rightarrow> if handled x then None else Some x)
      in finally_return repos pending)"

text \<open>
  What the loop gives for a dict of entries that are all dicts: the entries that have
  both required fields, in the order of the document.
\<close>

definition complete :: "(yaml \<times> yaml) list \<Rightarrow> bool" where
  "complete attrs \<longleftrightarrow> dict_get attrs (YStr ''type'') \<noteq> None \<and> dict_get attrs (YStr ''url'') \<noteq> None"

definition repo_of :: "(yaml \<times> yaml) list \<Rightarrow> repo" where
  "repo_of attrs =
     [(''type'', the (dict_get attrs (YStr ''type''))), (''url'', the (dict_get attrs (YStr ''url'')))]
     @ (case dict_get attrs (YStr ''version'') of None \<Rightarrow> [] | Some v \<Rightarrow> [(''version'', v)])"

fun resolved :: "(yaml \<times> yaml) list \<Rightarrow> (yaml \<times> repo) list" where
  "resolved [] = []"
| "resolved ((rpath, YMap attrs) # es) =
     (if complete attrs then (rpath, repo_of attrs) # resolved es else resolved es)"
| "resolved ((rpath, other) # es) = resolved es"

fun is_dict :: "yaml \<Rightarrow> bool" where
  "is_dict (YMap kvs) = True"
| "is_dict other = False"

definition wf_dict :: "(yaml \<times> 'v) list \<Rightarrow> bool" where
  "wf_dict kvs \<longleftrightarrow> distinct (map (py_key \<circ> fst) kvs) \<and> list_all (hashable \<circ> fst) kvs"

text \<open>Two manifests with three entries each.\<close>

definition git_entry :: "string \<Rightarrow> yaml" where
  "git_entry u = YMap [(YStr ''type'', YStr ''git''), (YStr ''url'', YStr u)]"

definition manifest_missing_url :: yaml where
  "manifest_missing_url =
     YMap [(YStr ''repositories'',
            YMap [(YStr ''pkg_a'', YMap [(YStr ''type'', YStr ''git''), (YStr ''url'', YStr ''https://host/a.git''),
                                         (YStr ''version'', YStr ''humble'')]),
                  (YStr ''pkg_b'', YMap [(YStr ''type'', YStr ''git'')]),
                  (YStr ''pkg_c'', git_entry ''https://host/c.git'')])]"

definition manifest_null_entry :: yaml where
  "manifest_null_entry =
     YMap [(YStr ''repositories'',
            YMap [(YStr ''pkg_a'', YNull),
                  (YStr ''pkg_b'', git_entry ''https://host/b.git''),
                  (YStr ''pkg_c'', git_entry ''https://host/c.git'')])]"

section \<open>Directory trees\<close>

text \<open>
  A file with its content, or a directory with its entries.  The entries are an
  association list in the order \<open>os.scandir\<close> and \<open>os.listdir\<close> give them; in a directory
  no two entries have the same name (\<open>wf_node\<close>).
\<close>

datatype 'c node = File 'c | Dir "(string \<times> 'c node) list"


text \<open>The node at a relative path, given by its components.\<close>

fun lookup :: "'c node \<Rightarrow> string list \<Rightarrow> 'c node option" where
  "lookup t [] = Some t"
| "lookup (File c) (n # p) = None"
| "lookup (Dir es) (n # p) = (case map_of es n of None \<Rightarrow> None | Some t \<Rightarrow> lookup t p)"


text \<open>
  \<open>shutil.copytree(src, dst, ignore=..., dirs_exist_ok=...)\<close> with the default
  \<open>copy_function\<close>, \<open>shutil.copy2\<close>.  \<open>copy_entries\<close> is the loop of \<open>_copytree\<close> over the
  entries of the source directory, on the entries of the destination directory, and
  \<open>copy_entry\<close> is its body.  The names that the \<open>ignore\<close> callable returns are skipped, in
  every directory.  \<open>copy2\<close> onto a directory writes into that directory, under the name
  of the source file, and fails if a directory has that name.  The recursive call for a
  subdirectory starts with \<open>os.makedirs(dst, exist_ok=dirs_exist_ok)\<close>, which fails when
  a file has the name, or a directory has it and \<open>dirs_exist_ok\<close> is false.  An error of
  an entry is recorded, the loop goes on, and \<open>copytree\<close> raises \<open>shutil.Error\<close> at its end
  if there is any.
\<close>

fun copy_entries :: "(string \<Rightarrow> bool) \<Rightarrow> bool \<Rightarrow> (string \<times> 'c node) list \<Rightarrow> (string \<times> 'c node) list
      \<Rightarrow> (string \<times> 'c node) list \<times> py_exc list"
  and copy_entry :: "(string \<Rightarrow> bool) \<Rightarrow> bool \<Rightarrow> string \<Rightarrow> 'c node \<Rightarrow> (string \<times> 'c node) list
      \<Rightarrow> (string \<times> 'c node) list \<times> py_exc list"
where
  "copy_entries ign ok [] ds = (ds, [])"
| "copy_entries ign ok ((n, x) # es) ds =
     (if ign n then copy_entries ign ok es ds
      else (case copy_entry ign ok n x ds of
              (ds1, errs1) \<Rightarrow>
                (case copy_entries ign ok es ds1 of
                   (ds2, errs2) \<Rightarrow> (ds2, errs1 @ errs2))))"
| "copy_entry ign ok n (File c) ds =
     (case map_of ds n of
        Some (Dir sub) \<Rightarrow>
          (case map_of sub n of
             Some (Dir deeper) \<Rightarrow> (ds, [OSError])
           | _ \<Rightarrow> (AList.update n (Dir (AList.update n (File c) sub)) ds, []))
      | _ \<Rightarrow> (AList.update n (File c) ds, []))"
| "copy_entry ign ok n (Dir es) ds =
     (case map_of ds n of
        Some (File c) \<Rightarrow> (ds, [OSError])
      | Some (Dir sub) \<Rightarrow>
          if ok
          then (case copy_entries ign ok es sub of
                  (sub', errs) \<Rightarrow> (AList.update n (Dir sub') ds, errs))
          else (ds, [OSError])
      | None \<Rightarrow>
          (case copy_entries ign ok es [] of
             (sub', errs) \<Rightarrow> (AList.update n (Dir sub') ds, errs)))"

text \<open>
  The call itself: \<open>os.scandir(src)\<close> needs a directory, then \<open>os.makedirs(dst)\<close> and the
  loop.  The arguments are the nodes at the two paths, \<open>None\<close> where nothing is.
\<close>

definition copytree :: "(string \<Rightarrow> bool) \<Rightarrow> bool \<Rightarrow> 'c node option \<Rightarrow> 'c node option \<Rightarrow> py_exc + 'c node" where
  "copytree ign ok src dst =
     (case src of
        Some (Dir es) \<Rightarrow>
          (case dst of
             Some (File c) \<Rightarrow> Inl OSError
           | Some (Dir ds) \<Rightarrow>
               if ok
               then (case copy_entries ign ok es ds of
                       (ds', errs) \<Rightarrow> if errs = [] then Inr (Dir ds') else Inl ShutilError)
               else Inl OSError
           | None \<Rightarrow>
               (case copy_entries ign ok es [] of
                  (ds', errs) \<Rightarrow> if errs = [] then Inr (Dir ds') else Inl ShutilError))
      | _ \<Rightarrow> Inl OSError)"

section \<open>The overlay of the extra packages\<close>








section \<open>Moving a tree: the include-flatten step\<close>

text \<open>
  \<open>shutil.copytree(src, dst, copy_function=shutil.move, dirs_exist_ok=True)\<close> for a
  source that lies outside the destination.  \<open>move_entries\<close> is the loop over the entries
  of the source directory; it returns what is left of the source, the new entries of the
  destination and the recorded errors.  \<open>shutil.move\<close> of a file renames it onto the
  destination name, replacing a file there; onto a directory it moves the file into that
  directory under its own name, and raises when something has that name already.  A
  subdirectory is not moved as one: \<open>copytree\<close> is called for it, which makes the
  destination directory (an error when a file has the name) and moves the files one by
  one, so the source keeps its directories, emptied.
\<close>

fun move_entries :: "(string \<times> 'c node) list \<Rightarrow> (string \<times> 'c node) list
      \<Rightarrow> (string \<times> 'c node) list \<times> (string \<times> 'c node) list \<times> py_exc list"
  and move_entry :: "string \<Rightarrow> 'c node \<Rightarrow> (string \<times> 'c node) list
      \<Rightarrow> 'c node option \<times> (string \<times> 'c node) list \<times> py_exc list"
where
  "move_entries [] ds = ([], ds, [])"
| "move_entries ((n, x) # es) ds =
     (case move_entry n x ds of
        (left, ds1, errs1) \<Rightarrow>
          (case move_entries es ds1 of
             (rest, ds2, errs2) \<Rightarrow>
               ((case left of None \<Rightarrow> rest | Some y \<Rightarrow> (n, y) # rest), ds2, errs1 @ errs2)))"
| "move_entry n (File c) ds =
     (case map_of ds n of
        Some (Dir sub) \<Rightarrow>
          (case map_of sub n of
             None \<Rightarrow> (None, AList.update n (Dir (AList.update n (File c) sub)) ds, [])
           | Some y \<Rightarrow> (Some (File c), ds, [ShutilError]))
      | _ \<Rightarrow> (None, AList.update n (File c) ds, []))"
| "move_entry n (Dir es) ds =
     (case map_of ds n of
        Some (File c) \<Rightarrow> (Some (Dir es), ds, [OSError])
      | Some (Dir sub) \<Rightarrow>
          (case move_entries es sub of
             (rest, sub', errs) \<Rightarrow> (Some (Dir rest), AList.update n (Dir sub') ds, errs))
      | None \<Rightarrow>
          (case move_entries es [] of
             (rest, sub', errs) \<Rightarrow> (Some (Dir rest), AList.update n (Dir sub') ds, errs)))"

text \<open>
  The call of the flatten step has its source \<open>P/D\<close> inside its destination \<open>P\<close>.
  \<open>move_up D es ds\<close> runs the loop over \<open>es\<close>, the entries of \<open>P/D\<close> as \<open>os.scandir\<close> listed
  them when the call began, on \<open>ds\<close>, the entries of \<open>P\<close>, among them \<open>D\<close> itself.  An entry
  with another name is moved beside \<open>P/D\<close>, as above, from what \<open>P/D\<close> holds under that
  name at that moment.  For the entry named \<open>D\<close> the destination name \<open>P/D\<close> is the source
  directory: a file raises, since \<open>P/D/D\<close> exists; a directory \<open>P/D/D\<close> is merged into
  \<open>P/D\<close> by the same call one level down.
\<close>

definition set_child :: "string \<Rightarrow> string \<Rightarrow> 'c node option \<Rightarrow> (string \<times> 'c node) list \<Rightarrow> (string \<times> 'c node) list" where
  "set_child d n left ds =
     (case map_of ds d of
        Some (Dir src) \<Rightarrow>
          AList.update d (Dir (case left of None \<Rightarrow> AList.delete n src
                                          | Some y \<Rightarrow> AList.update n y src)) ds
      | _ \<Rightarrow> ds)"

fun move_up :: "string \<Rightarrow> (string \<times> 'c node) list \<Rightarrow> (string \<times> 'c node) list
      \<Rightarrow> (string \<times> 'c node) list \<times> py_exc list" where
  "move_up d [] ds = (ds, [])"
| "move_up d ((n, x) # es) ds =
     (case map_of ds d of
        Some (Dir src) \<Rightarrow>
          (let (ds1, errs1) =
             (if n = d
              then (case x of
                      File c \<Rightarrow> (ds, [ShutilError])
                    | Dir deeper \<Rightarrow>
                        (case move_up d deeper src of
                           (src', errs) \<Rightarrow> (AList.update d (Dir src') ds, errs)))
              else (case map_of src n of
                      None \<Rightarrow> (ds, [OSError])
                    | Some cur \<Rightarrow>
                        (case move_entry n cur ds of
                           (left, ds', errs) \<Rightarrow> (set_child d n left ds', errs))))
           in (case move_up d es ds1 of (ds2, errs2) \<Rightarrow> (ds2, errs1 @ errs2)))
      | _ \<Rightarrow> (ds, [OSError]))"

text \<open>
  One iteration of the loop \<open>for folder in include_folders\<close> of
  \<open>Build.package_mcu_library\<close>, on the entries of \<open>self.includes\<close>.
  \<open>os.path.exists(repeated_path)\<close> holds for a file as well, on which \<open>copytree\<close> raises.
  After a \<open>copytree\<close> without errors \<open>shutil.rmtree\<close> removes \<open>folder/folder\<close>; with errors
  \<open>copytree\<close> raises at its end and the loop is left.
\<close>

definition flatten_folder :: "string \<Rightarrow> (string \<times> 'c node) list \<Rightarrow> (string \<times> 'c node) list \<times> py_exc option" where
  "flatten_folder d inc =
     (case map_of inc d of
        Some (Dir ds) \<Rightarrow>
          (case map_of ds d of
             None \<Rightarrow> (inc, None)
           | Some (File c) \<Rightarrow> (inc, Some OSError)
           | Some (Dir es) \<Rightarrow>
               (case move_up d es ds of
                  (ds', errs) \<Rightarrow>
                    if errs = [] then (AList.update d (Dir (AList.delete d ds')) inc, None)
                    else (AList.update d (Dir ds') inc, Some ShutilError)))
      | _ \<Rightarrow> (inc, None))"

fun flatten_loop :: "string list \<Rightarrow> (string \<times> 'c node) list \<Rightarrow> (string \<times> 'c node) list \<times> py_exc option" where
  "flatten_loop [] inc = (inc, None)"
| "flatten_loop (d # folders) inc =
     (case flatten_folder d inc of
        (inc1, Some x) \<Rightarrow> (inc1, Some x)
      | (inc1, None) \<Rightarrow> flatten_loop folders inc1)"

text \<open>The whole step: \<open>include_folders = os.listdir(self.includes)\<close>, then the loop.\<close>

definition flatten_includes :: "(string \<times> 'c node) list \<Rightarrow> (string \<times> 'c node) list \<times> py_exc option" where
  "flatten_includes inc = flatten_loop (map fst inc) inc"

definition nested :: "string \<Rightarrow> (string \<times> 'c node) list \<Rightarrow> bool" where
  "nested d inc \<longleftrightarrow>
     (case map_of inc d of
        Some (Dir ds) \<Rightarrow> map_of ds d \<noteq> None
      | _ \<Rightarrow> False)"

text \<open>An installed include tree in which two packages have the doubled directory.\<close>

definition include_tree :: "(string \<times> string node) list" where
  "include_tree =
     [(''rcl'', Dir [(''rcl'', Dir [(''rcl.h'', File ''rcl''), (''types.h'', File ''types'')])]),
      (''rmw'', Dir [(''rmw'', Dir [(''rmw.h'', File ''rmw''), (''impl'', Dir [(''cpp.h'', File ''cpp'')])])]),
      (''version.h'', File ''version'')]"

definition flat_tree :: "(string \<times> string node) list" where
  "flat_tree =
     [(''rcl'', Dir [(''rcl.h'', File ''rcl''), (''types.h'', File ''types'')]),
      (''rmw'', Dir [(''rmw.h'', File ''rmw''), (''impl'', Dir [(''cpp.h'', File ''cpp'')])]),
      (''version.h'', File ''version'')]"

section \<open>Merging the archives\<close>

text \<open>
  An archive is the list of its members, name and content, in the order they were added.
  The files of a flat directory are an association list as well.  \<open>ar x\<close> writes every
  member into the current directory, a later member over an earlier file of the same
  name.
\<close>

type_synonym 'c archive = "(string \<times> 'c) list"

definition ar_extract :: "'c archive \<Rightarrow> (string \<times> 'c) list \<Rightarrow> (string \<times> 'c) list" where
  "ar_extract members dir = fold (\<lambda>(n, c). AList.update n c) members dir"

text \<open>\<open>f.split('.')[0]\<close>: the file name up to its first dot.\<close>

definition archive_stem :: "string \<Rightarrow> string" where
  "archive_stem f = takeWhile (\<lambda>c. c \<noteq> CHR ''.'') f"

definition staged_name :: "string \<Rightarrow> string \<Rightarrow> string" where
  "staged_name f obj = archive_stem f @ ''__'' @ obj"

text \<open>
  \<open>os.rename(obj, '../' + f.split('.')[0] + "__" + obj)\<close> in \<open>aux/naming\<close>, when it
  succeeds: the state is the files of \<open>aux/naming\<close> and the files of \<open>aux\<close>.  The names
  come from \<open>os.listdir()\<close>, so the file is there; the file takes the place of a file of
  the new name.
\<close>

definition rename_obj :: "string \<Rightarrow> string \<Rightarrow> (string \<times> 'c) list \<times> (string \<times> 'c) list
      \<Rightarrow> (string \<times> 'c) list \<times> (string \<times> 'c) list" where
  "rename_obj f obj st =
     (case map_of (fst st) obj of
        None \<Rightarrow> st
      | Some c \<Rightarrow> (AList.delete obj (fst st), AList.update (staged_name f obj) c (snd st)))"

text \<open>
  The loop \<open>for obj in [x for x in os.listdir() if x.endswith('obj')]\<close>.  On win32
  \<open>os.rename\<close> raises when a file of the new name exists, elsewhere it replaces that
  file: \<open>strict\<close> says which of the two it is.  The exception leaves the loops and the
  method, with the files as they are at that point.
\<close>

fun rename_objs :: "bool \<Rightarrow> string \<Rightarrow> string list \<Rightarrow> (string \<times> 'c) list \<times> (string \<times> 'c) list
      \<Rightarrow> py_exc option \<times> (string \<times> 'c) list \<times> (string \<times> 'c) list" where
  "rename_objs strict f [] st = (None, st)"
| "rename_objs strict f (obj # objs) st =
     (if strict \<and> map_of (snd st) (staged_name f obj) \<noteq> None then (Some OSError, st)
      else rename_objs strict f objs (rename_obj f obj st))"

text \<open>
  The body of \<open>if f.endswith('.a')\<close> for the archive \<open>f\<close>, in \<open>aux/naming\<close>: \<open>members\<close>
  is what \<open>ar x\<close> writes there.
\<close>

definition stage_archive :: "bool \<Rightarrow> string \<Rightarrow> 'c archive \<Rightarrow> (string \<times> 'c) list \<times> (string \<times> 'c) list
      \<Rightarrow> py_exc option \<times> (string \<times> 'c) list \<times> (string \<times> 'c) list" where
  "stage_archive strict f members st =
     (let extracted = ar_extract members (fst st);
          objs = filter (\<lambda>x. endswith x ''obj'') (map fst extracted)
      in rename_objs strict f objs (extracted, snd st))"

text \<open>
  The loop over \<open>os.walk(self.mcu_folder + "/install/lib")\<close>: the walk is the list of the
  files it visits, each with its directory, its name and, for an archive, its members.
\<close>

type_synonym 'c walk = "(string \<times> string \<times> 'c archive) list"

fun stage_all :: "bool \<Rightarrow> 'c walk \<Rightarrow> (string \<times> 'c) list \<times> (string \<times> 'c) list
      \<Rightarrow> py_exc option \<times> (string \<times> 'c) list \<times> (string \<times> 'c) list" where
  "stage_all strict [] st = (None, st)"
| "stage_all strict ((root, f, members) # walk) st =
     (if endswith f ''.a''
      then (case stage_archive strict f members st of
              (None, st') \<Rightarrow> stage_all strict walk st'
            | (Some x, st') \<Rightarrow> (Some x, st'))
      else stage_all strict walk st)"




text \<open>
  The member name behind a staged name, and the state of \<open>aux/naming\<close> between two
  archives: no file whose name ends in \<open>obj\<close> is left there.
\<close>

definition original_name :: "string \<Rightarrow> string \<Rightarrow> string" where
  "original_name f k = drop (length (archive_stem f) + 2) k"


text \<open>
  The shell patterns \<open>*.o *.obj\<close>: a name that does not begin with a dot and ends in
  \<open>.o\<close> or \<open>.obj\<close>.
\<close>

definition glob_objects :: "string \<Rightarrow> bool" where
  "glob_objects n \<longleftrightarrow> n \<noteq> [] \<and> hd n \<noteq> CHR ''.'' \<and> (endswith n ''.o'' \<or> endswith n ''.obj'')"

text \<open>
  What becomes of a file name on its way through \<open>$(ls *.o *.obj)\<close>: the shell splits
  the output of \<open>ls\<close> at blanks, tabs and newlines and expands the pattern characters
  \<open>*\<close>, \<open>?\<close> and \<open>[\<close> (and the backslash that quotes them) in every word once more, and
  \<open>ls\<close>, \<open>rm\<close> and \<open>ar\<close> read an argument that begins with \<open>-\<close> as options.  A name with
  none of these reaches \<open>ar\<close> as it is.
\<close>

definition shell_safe :: "string \<Rightarrow> bool" where
  "shell_safe n \<longleftrightarrow>
     n \<noteq> [] \<and> hd n \<noteq> CHR ''-''
     \<and> list_all (\<lambda>c. c \<notin> set [CHR 0x20, CHR 0x09, CHR 0x0A, CHR ''*'', CHR ''?'', CHR ''['', CHR 0x5C]) n"

text \<open>
  The part of the file system that \<open>Build.package_mcu_library\<close> reads and writes: the
  installed archives and headers, the staging directory \<open>build/aux\<close> with \<open>naming\<close> and
  the archive under construction, and the final artifact \<open>libmicroros/libmicroros.a\<close>
  with \<open>libmicroros/include\<close>.
\<close>

record 'c world =
  install_lib :: "'c walk"
  install_include :: "'c node option"
  naming_files :: "(string \<times> 'c) list"
  aux_files :: "(string \<times> 'c) list"
  aux_lib :: "'c archive option"
  lib_file :: "'c archive option"
  include_dir :: "'c node option"

text \<open>
  What the platform answers.  \<open>sys.platform\<close>, and whether the directory of the Homebrew
  binutils exists.  Whether \<open>self.build_folder\<close> and \<open>library_folder\<close> are absolute
  paths: every path of the step is one of the two with a suffix appended, and the step
  changes the working directory (\<open>build_folder\<close> is \<open>library_folder/build\<close>, or a
  directory below the temporary directory on win32 when that path is long).  Whether
  the two folders are on one volume: \<open>os.rename\<close> does not move a file to another one.  And, for
  the staging directory, the library file and the include directory, whether the two
  calls \<open>shutil.rmtree(..., ignore_errors=True)\<close> have removed them: such a call returns
  also when the removal fails, and what it could not remove stays as it was.
\<close>

record host =
  sys_platform :: string
  homebrew_binutils :: bool
  build_absolute :: bool
  library_absolute :: bool
  same_volume :: bool
  aux_removed :: bool
  lib_file_removed :: bool
  include_removed :: bool

text \<open>
  What the archiver does is not the program's: the members that \<open>ar x\<close> writes into
  the working directory for an archive file of a given name and content (all of them
  when it works; \<open>os.system\<close> gives its exit status, which the code does not look at),
  the exit status of \<open>ar rc\<close>, the file that is \<open>libmicroros.a\<close> after an \<open>ar rc\<close> that
  fails or that the shell has not handed the file names as they are, and the exit status
  of \<open>ranlib\<close>.
\<close>

record 'c tools =
  ar_x :: "string \<Rightarrow> 'c archive \<Rightarrow> 'c archive"
  ar_rc_status :: int
  ar_rc_leaves :: "'c archive option"
  ranlib_status :: int

text \<open>
  \<open>ar rc\<close> puts the files into the archive in the order of its arguments: a file takes
  the place of the member of its name, or is added at the end.
\<close>

definition ar_replace :: "(string \<times> 'c) list \<Rightarrow> 'c archive \<Rightarrow> 'c archive" where
  "ar_replace files members = fold (\<lambda>(n, c). AList.update n c) files members"

text \<open>
  The command line \<open>ar rc libmicroros.a $(ls *.o *.obj); rm *.o *.obj; ranlib
  libmicroros.a\<close>, run in \<open>aux\<close>.  \<open>ls\<close> prints the matching names sorted (by their
  bytes, as in the C locale).  When all of them pass the shell as they are and \<open>ar rc\<close>
  succeeds, the archive holds these files, added to what an archive left in \<open>aux\<close> held
  before; otherwise the archive is what the archiver leaves.  \<open>rm\<close> removes the
  matching files, unless one of the names makes it stop at an option it does not know.
  The three commands are joined by \<open>;\<close>, so the exit status of the line is that of its
  last command.
\<close>

definition archive_command :: "'c tools \<Rightarrow> 'c world \<Rightarrow> 'c world" where
  "archive_command tools w =
     (let listed = sort_key fst (filter (\<lambda>(n, c). glob_objects n) (aux_files w))
      in w\<lparr>aux_lib :=
             (if ar_rc_status tools = 0 \<and> list_all (\<lambda>(n, c). shell_safe n) listed
              then Some (ar_replace listed (case aux_lib w of None \<Rightarrow> [] | Some members \<Rightarrow> members))
              else ar_rc_leaves tools),
           aux_files :=
             (if list_ex (\<lambda>(n, c). hd n = CHR ''-'') listed then aux_files w
              else filter (\<lambda>(n, c). \<not> glob_objects n) (aux_files w))\<rparr>)"

text \<open>
  Modelled from the spec: \<open>run_cmd\<close> of \<open>microros_utils/utils.py\<close>, which is not among
  the sources.  The spec has it run the command as a subprocess and give the exit code of
  the process; the line uses \<open>$(...)\<close>, redirections and \<open>;\<close>, so the process is a shell.
\<close>

definition returncode :: "'c tools \<Rightarrow> int" where
  "returncode tools = ranlib_status tools"

definition resolve_binutils_path :: "string \<Rightarrow> bool \<Rightarrow> abort + string" where
  "resolve_binutils_path platform homebrew =
     (if platform = ''darwin''
      then (if homebrew then Inr ''/opt/homebrew/opt/binutils/bin/'' else Inl (Exit 1))
      else Inr [])"

text \<open>What is at the destination of a \<open>copytree\<close> after the call, also when it raises.\<close>

definition copytree_leaves :: "(string \<Rightarrow> bool) \<Rightarrow> bool \<Rightarrow> 'c node option \<Rightarrow> 'c node option \<Rightarrow> 'c node option" where
  "copytree_leaves ign ok src dst =
     (case src of
        Some (Dir es) \<Rightarrow>
          (case dst of
             Some (File c) \<Rightarrow> dst
           | Some (Dir ds) \<Rightarrow> if ok then Some (Dir (fst (copy_entries ign ok es ds))) else dst
           | None \<Rightarrow> Some (Dir (fst (copy_entries ign ok es []))))
      | _ \<Rightarrow> dst)"

text \<open>
  The end of \<open>package_mcu_library\<close>: the headers are copied to \<open>self.includes\<close> and
  flattened.  The working directory is \<open>aux\<close> by then, so a relative source path names
  nothing and \<open>copytree\<close> raises; it raises as well when \<open>self.includes\<close> is still there.
\<close>

definition install_includes :: "host \<Rightarrow> 'c world \<Rightarrow> abort option \<times> 'c world" where
  "install_includes ho w =
     (if \<not> build_absolute ho then (Some (Raised OSError), w)
      else (case copytree (\<lambda>n. False) False (install_include w) (include_dir w) of
        Inl x \<Rightarrow>
          (Some (Raised x),
           w\<lparr>include_dir := copytree_leaves (\<lambda>n. False) False (install_include w) (include_dir w)\<rparr>)
      | Inr (File c) \<Rightarrow> (Some (Raised OSError), w\<lparr>include_dir := Some (File c)\<rparr>)
      | Inr (Dir inc) \<Rightarrow>
          (case flatten_includes inc of
             (inc', None) \<Rightarrow> (None, w\<lparr>include_dir := Some (Dir inc')\<rparr>)
           | (inc', Some x) \<Rightarrow> (Some (Raised x), w\<lparr>include_dir := Some (Dir inc')\<rparr>))))"

text \<open>
  \<open>Build.package_mcu_library\<close>, in its steps.  First the two \<open>rmtree\<close> calls, which
  ignore their errors, and the two \<open>makedirs\<close> calls with \<open>exist_ok=True\<close>: what has
  been removed is empty or absent afterwards, the rest is as before.
\<close>

definition clean_dirs :: "host \<Rightarrow> 'c world \<Rightarrow> 'c world" where
  "clean_dirs ho w =
     w\<lparr>naming_files := (if aux_removed ho then [] else naming_files w),
       aux_files := (if aux_removed ho then [] else aux_files w),
       aux_lib := (if aux_removed ho then None else aux_lib w),
       lib_file := (if lib_file_removed ho then None else lib_file w),
       include_dir := (if include_removed ho then None else include_dir w)\<rparr>"

text \<open>The walk with, for every file, what \<open>ar x\<close> extracts from it.\<close>

definition extraction :: "'c tools \<Rightarrow> 'c walk \<Rightarrow> 'c walk" where
  "extraction tools walk = map (\<lambda>(root, f, members). (root, f, ar_x tools f members)) walk"

text \<open>
  The loop over the installed archives.  With an absolute \<open>build_folder\<close> every archive
  is extracted in \<open>aux/naming\<close> and its objects are renamed.  With a relative one the
  first \<open>os.chdir(aux_folder + "/naming")\<close> moves the process to \<open>aux/naming\<close>, from where
  \<open>root + "/" + f\<close> names no file: \<open>ar x\<close> extracts nothing.  The first archive then
  renames what was left in \<open>aux/naming\<close>; for each later one \<open>makedirs\<close> creates a new,
  empty \<open>aux/naming\<close> below the working directory, where \<open>os.listdir()\<close> finds nothing
  to rename.
\<close>

definition is_archive :: "string \<times> string \<times> 'c archive \<Rightarrow> bool" where
  "is_archive e = (case e of (root, f, members) \<Rightarrow> endswith f ''.a'')"

definition stage_step :: "host \<Rightarrow> 'c tools \<Rightarrow> 'c world \<Rightarrow> py_exc option \<times> 'c world" where
  "stage_step ho tools w =
     (let strict = (sys_platform ho = ''win32'');
          r = (if build_absolute ho
               then stage_all strict (extraction tools (install_lib w)) (naming_files w, aux_files w)
               else (case filter is_archive (install_lib w) of
                       [] \<Rightarrow> (None, naming_files w, aux_files w)
                     | (root, f, members) # later \<Rightarrow>
                         stage_archive strict f [] (naming_files w, aux_files w)))
      in (fst r, w\<lparr>naming_files := fst (snd r), aux_files := snd (snd r)\<rparr>))"

text \<open>
  \<open>os.chdir(aux_folder)\<close> after the loop: a relative path is looked up from
  \<open>aux/naming\<close> once the loop has met an archive, and is not there.
\<close>

definition chdir_aux :: "host \<Rightarrow> 'c world \<Rightarrow> py_exc option" where
  "chdir_aux ho w =
     (if \<not> build_absolute ho \<and> list_ex is_archive (install_lib w) then Some OSError else None)"

text \<open>
  \<open>os.rename('libmicroros.a', self.library)\<close> raises when the archiver left no file,
  when \<open>self.library\<close> is a relative path, which is looked up from \<open>aux\<close>, when it is
  on another volume, and on win32 when the library is still there; elsewhere the file
  takes the place of the library.  Then the headers follow.
\<close>

definition install_library :: "host \<Rightarrow> 'c world \<Rightarrow> abort option \<times> 'c world" where
  "install_library ho w =
     (case aux_lib w of
        None \<Rightarrow> (Some (Raised OSError), w)
      | Some members \<Rightarrow>
          if \<not> library_absolute ho \<or> \<not> same_volume ho
             \<or> (sys_platform ho = ''win32'' \<and> lib_file w \<noteq> None)
          then (Some (Raised OSError), w)
          else install_includes ho (w\<lparr>aux_lib := None, lib_file := Some members\<rparr>))"

text \<open>
  The result is the way the call ends (\<open>None\<close> when it returns) and the file system it
  leaves.
\<close>

definition package_mcu_library :: "host \<Rightarrow> 'c tools \<Rightarrow> 'c world \<Rightarrow> abort option \<times> 'c world" where
  "package_mcu_library ho tools w =
     (case resolve_binutils_path (sys_platform ho) (homebrew_binutils ho) of
        Inl a \<Rightarrow> (Some a, w)
      | Inr binutils_path \<Rightarrow>
          (case stage_step ho tools (clean_dirs ho w) of
             (Some x, w2) \<Rightarrow> (Some (Raised x), w2)
           | (None, w2) \<Rightarrow>
               (case chdir_aux ho w of
                  Some x \<Rightarrow> (Some (Raised x), w2)
                | None \<Rightarrow>
                    (let w3 = archive_command tools w2
                     in if returncode tools \<noteq> 0 then (Some (Exit 1), w3)
                        else install_library ho w3))))"


text \<open>Two archives with a member of the same name, and directories to merge them in.\<close>

definition two_archives :: "string walk" where
  "two_archives =
     [(''install/lib'', ''librcl.a'', [(''main.obj'', ''rcl main''), (''node.c.obj'', ''rcl node'')]),
      (''install/lib'', ''librmw.a'', [(''main.obj'', ''rmw main'')]),
      (''install/lib/cmake'', ''rclConfig.cmake'', [])]"


definition built_world :: "string world" where
  "built_world =
     \<lparr>install_lib = two_archives, install_include = Some (Dir include_tree),
      naming_files = [], aux_files = [], aux_lib = None,
      lib_file = Some [(''old.obj'', ''previous build'')],
      include_dir = Some (Dir [])\<rparr>"

text \<open>
  A Linux host with absolute paths on which every removal succeeds, and one on which
  the library directory cannot be removed.
\<close>

definition linux_host :: host where
  "linux_host =
     \<lparr>sys_platform = ''linux'', homebrew_binutils = False,
      build_absolute = True, library_absolute = True, same_volume = True,
      aux_removed = True, lib_file_removed = True, include_removed = True\<rparr>"


text \<open>
  An archiver that works; one whose \<open>ar rc\<close> fails and leaves no archive, so that
  \<open>ranlib\<close> fails as well; and one whose \<open>ranlib\<close> fails.
\<close>

definition ar_succeeds :: "string tools" where
  "ar_succeeds =
     \<lparr>ar_x = (\<lambda>f members. members), ar_rc_status = 0, ar_rc_leaves = None, ranlib_status = 0\<rparr>"



section \<open>The pipeline\<close>

text \<open>
  The state of a build: the package lists, the environments, the files of the merge,
  the lines that \<open>run\<close> itself prints, and \<open>outside\<close>, which stands for everything else
  the pipeline can change (the cloned sources, the build trees, the tools it has run,
  what the steps print).
\<close>

record ('c, 'e) build =
  reg :: registry
  proc :: process
  world :: "'c world"
  printed :: "string list"
  outside :: 'e

text \<open>
  The steps of \<open>Build.run\<close> that clone repositories and call the build tool are
  parameters: each takes the state and gives the way it ends and the state it leaves.
  The remaining parameters are what the platform and the archiver answer.
\<close>

record ('c, 'e) collaborators =
  download_dev_environment :: "('c, 'e) build \<Rightarrow> abort option \<times> ('c, 'e) build"
  build_dev_environment :: "('c, 'e) build \<Rightarrow> abort option \<times> ('c, 'e) build"
  download_mcu_environment :: "('c, 'e) build \<Rightarrow> abort option \<times> ('c, 'e) build"
  build_mcu_environment :: "('c, 'e) build \<Rightarrow> abort option \<times> ('c, 'e) build"
  pycache_dir :: "string option"
  host_answers :: host
  archiver :: "'c tools"

definition and_then :: "('s \<Rightarrow> abort option \<times> 's) \<Rightarrow> ('s \<Rightarrow> abort option \<times> 's) \<Rightarrow> 's \<Rightarrow> abort option \<times> 's" where
  "and_then f g s = (case f s of (None, s') \<Rightarrow> g s' | (Some a, s') \<Rightarrow> (Some a, s'))"

definition check_env_step :: "string option \<Rightarrow> ('c, 'e) build \<Rightarrow> abort option \<times> ('c, 'e) build" where
  "check_env_step pycache b =
     (case check_env pycache (proc b) of
        Inl x \<Rightarrow> (Some (Raised x), b)
      | Inr p \<Rightarrow> (None, b\<lparr>proc := p\<rparr>))"

definition package_step :: "('c, 'e) collaborators \<Rightarrow> ('c, 'e) build \<Rightarrow> abort option \<times> ('c, 'e) build" where
  "package_step co b =
     (case package_mcu_library (host_answers co) (archiver co) (world b) of
        (r, w) \<Rightarrow> (r, b\<lparr>world := w\<rparr>))"

text \<open>\<open>Build.run\<close>; \<open>os.path.exists(self.library)\<close> is \<open>lib_file (world b) \<noteq> None\<close>.\<close>

definition run :: "('c, 'e) collaborators \<Rightarrow> ('c, 'e) build \<Rightarrow> abort option \<times> ('c, 'e) build" where
  "run co b =
     (if lib_file (world b) \<noteq> None
      then (None, b\<lparr>printed := printed b @ [''micro-ROS already built'']\<rparr>)
      else and_then (check_env_step (pycache_dir co))
             (and_then (download_dev_environment co)
               (and_then (build_dev_environment co)
                 (and_then (download_mcu_environment co)
                   (and_then (build_mcu_environment co)
                     (package_step co))))) b)"

text \<open>
  Collaborators that leave a trace: each appends its name to \<open>outside\<close>, here a list.
\<close>

definition traced :: "string \<Rightarrow> ('c, string list) build \<Rightarrow> abort option \<times> ('c, string list) build" where
  "traced step b = (None, b\<lparr>outside := outside b @ [step]\<rparr>)"

definition tracing :: "(string, string list) collaborators" where
  "tracing =
     \<lparr>download_dev_environment = traced ''clone dev'',
      build_dev_environment = traced ''colcon build dev'',
      download_mcu_environment = traced ''clone mcu'',
      build_mcu_environment = traced ''colcon build mcu'',
      pycache_dir = Some ''/project/build/pycache'',
      host_answers = linux_host,
      archiver = ar_succeeds\<rparr>"

definition built_state :: "(string, string list) build" where
  "built_state =
     \<lparr>reg = init_registry, proc = env_ros_sourced, world = built_world,
      printed = [], outside = []\<rparr>"

section \<open>Facts about the ignore operation\<close>

lemma endswith_iff: "endswith s suf \<longleftrightarrow> (\<exists>pre. s = pre @ suf)"
proof
  assume "endswith s suf"
  then have "s = take (length s - length suf) s @ suf"
    unfolding endswith_def by (metis append_take_drop_id)
  then show "\<exists>pre. s = pre @ suf" ..
next
  assume "\<exists>pre. s = pre @ suf"
  then show "endswith s suf"
    unfolding endswith_def by auto
qed

lemma name_ignore [simp]: "name (ignore p) = name p"
  by (simp add: ignore_def)

lemma ignored_ignore [simp]: "ignored (ignore p)"
  by (simp add: ignore_def)

lemma ignore_ignore [simp]: "ignore (ignore p) = ignore p"
  by (simp add: ignore_def)

lemma length_ignore_if_named [simp]: "length (ignore_if_named n a h) = length h"
  by (simp add: ignore_if_named_def)

lemma length_fold_ignore_if_named [simp]:
  "length (fold (ignore_if_named n) as h) = length h"
  by (induction as arbitrary: h) simp_all

lemma ignore_if_named_nth:
  "b < length h \<Longrightarrow>
   ignore_if_named n a h ! b = (if a = b \<and> name (h ! b) = n then ignore (h ! b) else h ! b)"
  by (simp add: ignore_if_named_def nth_list_update)

lemma fold_ignore_if_named_nth:
  "b < length h \<Longrightarrow>
   fold (ignore_if_named n) as h ! b =
     (if b \<in> set as \<and> name (h ! b) = n then ignore (h ! b) else h ! b)"
proof (induction as arbitrary: h)
  case Nil
  show ?case by simp
next
  case (Cons a as)
  have "fold (ignore_if_named n) (a # as) h ! b =
      fold (ignore_if_named n) as (ignore_if_named n a h) ! b"
    by simp
  also have "\<dots> = (if b \<in> set as \<and> name (ignore_if_named n a h ! b) = n
      then ignore (ignore_if_named n a h ! b) else ignore_if_named n a h ! b)"
    using Cons.prems by (intro Cons.IH) simp
  also have "\<dots> = (if b \<in> set (a # as) \<and> name (h ! b) = n then ignore (h ! b) else h ! b)"
    using Cons.prems by (auto simp: ignore_if_named_nth)
  finally show ?case .
qed

lemma fold_ignore_if_named_noop:
  assumes "\<forall>a \<in> set as. a < length h \<longrightarrow> name (h ! a) \<noteq> n"
  shows "fold (ignore_if_named n) as h = h"
  using assms by (induction as arbitrary: h) (auto simp: ignore_if_named_def)

lemma length_mark_discovered [simp]: "length (mark_discovered il a h) = length h"
  by (simp add: mark_discovered_def)

lemma length_fold_mark_discovered [simp]:
  "length (fold (mark_discovered il) as h) = length h"
  by (induction as arbitrary: h) simp_all

lemma mark_discovered_nth:
  "b < length h \<Longrightarrow>
   mark_discovered il a h ! b =
     (if a = b \<and> auto_ignored il (name (h ! b)) then ignore (h ! b) else h ! b)"
  by (simp add: mark_discovered_def nth_list_update)

lemma fold_mark_discovered_nth:
  "b < length h \<Longrightarrow>
   fold (mark_discovered il) as h ! b =
     (if b \<in> set as \<and> auto_ignored il (name (h ! b)) then ignore (h ! b) else h ! b)"
proof (induction as arbitrary: h)
  case Nil
  show ?case by simp
next
  case (Cons a as)
  have "fold (mark_discovered il) (a # as) h ! b =
      fold (mark_discovered il) as (mark_discovered il a h) ! b"
    by simp
  also have "\<dots> = (if b \<in> set as \<and> auto_ignored il (name (mark_discovered il a h ! b))
      then ignore (mark_discovered il a h ! b) else mark_discovered il a h ! b)"
    using Cons.prems by (intro Cons.IH) simp
  also have "\<dots> = (if b \<in> set (a # as) \<and> auto_ignored il (name (h ! b))
      then ignore (h ! b) else h ! b)"
    using Cons.prems by (auto simp: mark_discovered_nth)
  finally show ?case .
qed

text \<open>
  C8, as the code has it.  For every name, \<open>ignore_package\<close> marks every package
  registered in the target-stage list \<open>self.mcu_packages\<close> whose name is the given one:
  afterwards such a package is ignored, every other object is as it was, and the two
  package lists are the same.  When no package of that list has the name, the call
  changes nothing at all.  The operation has no failing branch, it always returns.
\<close>

theorem ignore_package_marks_matching:
  "(\<forall>a < length (objects r).
      objects (ignore_package n r) ! a =
        (if a \<in> set (mcu_packages r) \<and> name (objects r ! a) = n
         then (objects r ! a)\<lparr>ignored := True\<rparr> else objects r ! a))
   \<and> length (objects (ignore_package n r)) = length (objects r)
   \<and> mcu_packages (ignore_package n r) = mcu_packages r
   \<and> ((\<forall>a \<in> set (mcu_packages r). a < length (objects r) \<longrightarrow> name (objects r ! a) \<noteq> n)
        \<longrightarrow> ignore_package n r = r)"
proof -
  have marks: "\<forall>a < length (objects r).
      objects (ignore_package n r) ! a =
        (if a \<in> set (mcu_packages r) \<and> name (objects r ! a) = n
         then (objects r ! a)\<lparr>ignored := True\<rparr> else objects r ! a)"
    by (simp add: ignore_package_def fold_ignore_if_named_nth ignore_def)
  have same_length: "length (objects (ignore_package n r)) = length (objects r)"
    by (simp add: ignore_package_def)
  have same_list: "mcu_packages (ignore_package n r) = mcu_packages r"
    by (simp add: ignore_package_def)
  have noop: "(\<forall>a \<in> set (mcu_packages r). a < length (objects r) \<longrightarrow> name (objects r ! a) \<noteq> n)
        \<longrightarrow> ignore_package n r = r"
    by (simp add: ignore_package_def fold_ignore_if_named_noop)
  from marks same_length same_list noop show ?thesis by blast
qed

theorem ignore_package_marks_matching_witness:
  "mcu_packages example_registry = [0, 1]
   \<and> name (objects example_registry ! 0) = ''rcl''
   \<and> ignored (objects (ignore_package ''rcl'' example_registry) ! 0)
   \<and> \<not> ignored (objects (ignore_package ''rcl'' example_registry) ! 1)
   \<and> name (objects example_registry ! 0) \<noteq> ''micro_ros_msgs''
   \<and> name (objects example_registry ! 1) \<noteq> ''micro_ros_msgs''
   \<and> ignore_package ''micro_ros_msgs'' example_registry = example_registry"
proof -
  have absent: "\<forall>a \<in> set (mcu_packages example_registry).
      a < length (objects example_registry) \<longrightarrow> name (objects example_registry ! a) \<noteq> ''micro_ros_msgs''"
    by (simp add: example_registry_def)
  have noop: "ignore_package ''micro_ros_msgs'' example_registry = example_registry"
    using ignore_package_marks_matching [of example_registry "''micro_ros_msgs''"] absent by blast
  have "\<forall>a < length (objects example_registry).
      objects (ignore_package ''rcl'' example_registry) ! a =
        (if a \<in> set (mcu_packages example_registry) \<and> name (objects example_registry ! a) = ''rcl''
         then (objects example_registry ! a)\<lparr>ignored := True\<rparr> else objects example_registry ! a)"
    using ignore_package_marks_matching [of example_registry "''rcl''"] by blast
  then have
    "objects (ignore_package ''rcl'' example_registry) ! 0 =
       (if (0::nat) \<in> set (mcu_packages example_registry) \<and> name (objects example_registry ! 0) = ''rcl''
        then (objects example_registry ! 0)\<lparr>ignored := True\<rparr> else objects example_registry ! 0)"
    "objects (ignore_package ''rcl'' example_registry) ! 1 =
       (if (1::nat) \<in> set (mcu_packages example_registry) \<and> name (objects example_registry ! 1) = ''rcl''
        then (objects example_registry ! 1)\<lparr>ignored := True\<rparr> else objects example_registry ! 1)"
    by (simp_all add: example_registry_def)
  then have "ignored (objects (ignore_package ''rcl'' example_registry) ! 0)"
    and "\<not> ignored (objects (ignore_package ''rcl'' example_registry) ! 1)"
    by (simp_all add: example_registry_def)
  moreover have "mcu_packages example_registry = [0, 1]"
    and "name (objects example_registry ! 0) = ''rcl''"
    and "name (objects example_registry ! 0) \<noteq> ''micro_ros_msgs''"
    and "name (objects example_registry ! 1) \<noteq> ''micro_ros_msgs''"
    by (simp_all add: example_registry_def)
  ultimately show ?thesis using noop by blast
qed

text \<open>
  C8 as stated does not hold for every registered package: a package registered in
  \<open>self.dev_packages\<close> only, with the given name, is not marked.
\<close>

theorem ignore_package_counterexample:
  "(2::nat) \<in> set (dev_packages example_registry)
   \<and> name (objects example_registry ! 2) = ''rcl''
   \<and> ignored (objects example_registry ! 2) = False
   \<and> ignored (objects (ignore_package ''rcl'' example_registry) ! 2) = False"
  by (simp add: example_registry_def ignore_package_def ignore_if_named_def ignore_def)

text \<open>
  C10.  \<open>ignore_package\<close> walks \<open>self.mcu_packages\<close> only.  For every name, the list
  \<open>self.dev_packages\<close> is the same after the call, and every object registered there that
  is not also registered in \<open>self.mcu_packages\<close> is untouched, whatever its name: a
  dev-stage package with the given name is not marked.
\<close>

theorem ignore_package_keeps_dev_packages:
  "dev_packages (ignore_package n r) = dev_packages r
   \<and> (\<forall>a \<in> set (dev_packages r).
        a < length (objects r) \<longrightarrow> a \<notin> set (mcu_packages r) \<longrightarrow>
        objects (ignore_package n r) ! a = objects r ! a)"
  by (simp add: ignore_package_def fold_ignore_if_named_nth)

theorem ignore_package_keeps_dev_packages_witness:
  "dev_packages (ignore_package ''rcl'' example_registry) = [2]
   \<and> (2::nat) \<in> set (dev_packages example_registry)
   \<and> (2::nat) < length (objects example_registry)
   \<and> (2::nat) \<notin> set (mcu_packages example_registry)
   \<and> name (objects example_registry ! 2) = ''rcl''
   \<and> \<not> ignored (objects (ignore_package ''rcl'' example_registry) ! 2)"
proof -
  have dev: "(2::nat) \<in> set (dev_packages example_registry)"
    and live: "(2::nat) < length (objects example_registry)"
    and not_mcu: "(2::nat) \<notin> set (mcu_packages example_registry)"
    by (simp_all add: example_registry_def)
  from ignore_package_keeps_dev_packages [of "''rcl''" example_registry] dev live not_mcu
  have same: "objects (ignore_package ''rcl'' example_registry) ! 2 = objects example_registry ! 2"
    and list: "dev_packages (ignore_package ''rcl'' example_registry) = dev_packages example_registry"
    by blast+
  from same have "\<not> ignored (objects (ignore_package ''rcl'' example_registry) ! 2)"
    by (simp add: example_registry_def)
  moreover from list have "dev_packages (ignore_package ''rcl'' example_registry) = [2]"
    by (simp add: example_registry_def)
  moreover have "name (objects example_registry ! 2) = ''rcl''"
    by (simp add: example_registry_def)
  ultimately show ?thesis using dev live not_mcu by blast
qed

text \<open>
  C5, as the code has it.  At discovery time, \<open>download_mcu_environment\<close> calls
  \<open>ignore()\<close> on a package exactly when its name is in the default ignore-list of the
  profile or ends with \<open>_cpp\<close>: each package the marking loop gets from
  \<open>repo.get_packages()\<close> is left as discovered, with the flag set in that case and only
  then, so a package discovered unmarked is ignored afterwards if and only if its name is
  in the list or has the suffix.  When \<open>get_packages\<close> is repeatable, these packages are
  registered in \<open>self.mcu_packages\<close>.
\<close>

theorem auto_ignore_at_discovery:
  assumes "discovered get_packages r = (second, h2)"
    and "a \<in> set second" and "a < length h2"
  shows "objects (download_repo il get_packages r) ! a =
           (if name (h2 ! a) \<in> set il \<or> endswith (name (h2 ! a)) ''_cpp''
            then (h2 ! a)\<lparr>ignored := True\<rparr> else h2 ! a)
         \<and> (\<not> ignored (h2 ! a) \<longrightarrow>
              (ignored (objects (download_repo il get_packages r) ! a) \<longleftrightarrow>
               name (h2 ! a) \<in> set il \<or> (\<exists>pre. name (h2 ! a) = pre @ ''_cpp'')))
         \<and> (repeatable get_packages (objects r) \<longrightarrow>
              a \<in> set (mcu_packages (download_repo il get_packages r)))"
proof -
  obtain first h1 where first: "get_packages (objects r) = (first, h1)"
    by (cases "get_packages (objects r)")
  with assms(1) have second: "get_packages h1 = (second, h2)"
    by (simp add: discovered_def)
  have marked: "objects (download_repo il get_packages r) = fold (mark_discovered il) second h2"
    by (simp add: download_repo_def first second)
  have at: "objects (download_repo il get_packages r) ! a =
      (if auto_ignored il (name (h2 ! a)) then ignore (h2 ! a) else h2 ! a)"
    using assms(2,3) by (simp add: marked fold_mark_discovered_nth)
  have registered: "a \<in> set (mcu_packages (download_repo il get_packages r))"
    if "repeatable get_packages (objects r)"
  proof -
    from that have "second = first"
      by (simp add: repeatable_def first second)
    with assms(2) show ?thesis
      by (simp add: download_repo_def first second)
  qed
  from at registered show ?thesis
    by (auto simp: auto_ignored_def ignore_def endswith_iff)
qed

theorem auto_ignore_at_discovery_witness:
  "discovered (scan [(''foo_cpp'', ''mcu/src/foo/foo_cpp''), (''rcl'', ''mcu/src/rcl/rcl'')]) init_registry
     = ([2, 3],
        [\<lparr>name = ''foo_cpp'', path = ''mcu/src/foo/foo_cpp'', ignored = False\<rparr>,
         \<lparr>name = ''rcl'', path = ''mcu/src/rcl/rcl'', ignored = False\<rparr>,
         \<lparr>name = ''foo_cpp'', path = ''mcu/src/foo/foo_cpp'', ignored = False\<rparr>,
         \<lparr>name = ''rcl'', path = ''mcu/src/rcl/rcl'', ignored = False\<rparr>])
   \<and> ''foo_cpp'' \<notin> set [''rcl_logging_spdlog'']
   \<and> ignored (objects (download_repo [''rcl_logging_spdlog'']
        (scan [(''foo_cpp'', ''mcu/src/foo/foo_cpp''), (''rcl'', ''mcu/src/rcl/rcl'')]) init_registry) ! 2)
   \<and> \<not> ignored (objects (download_repo [''rcl_logging_spdlog'']
        (scan [(''foo_cpp'', ''mcu/src/foo/foo_cpp''), (''rcl'', ''mcu/src/rcl/rcl'')]) init_registry) ! 3)
   \<and> repeatable (cached_scan [(''foo_cpp'', ''mcu/src/foo/foo_cpp''), (''rcl'', ''mcu/src/rcl/rcl'')])
        (objects init_registry)
   \<and> mcu_packages (download_repo [''rcl_logging_spdlog'']
        (cached_scan [(''foo_cpp'', ''mcu/src/foo/foo_cpp''), (''rcl'', ''mcu/src/rcl/rcl'')]) init_registry)
       = [0, 1]
   \<and> ignored (objects (download_repo [''rcl_logging_spdlog'']
        (cached_scan [(''foo_cpp'', ''mcu/src/foo/foo_cpp''), (''rcl'', ''mcu/src/rcl/rcl'')]) init_registry) ! 0)"
proof -
  let ?ps = "[(''foo_cpp'', ''mcu/src/foo/foo_cpp''), (''rcl'', ''mcu/src/rcl/rcl'')]"
  let ?h1 = "[\<lparr>name = ''foo_cpp'', path = ''mcu/src/foo/foo_cpp'', ignored = False\<rparr>,
         \<lparr>name = ''rcl'', path = ''mcu/src/rcl/rcl'', ignored = False\<rparr>]"
  let ?h2 = "[\<lparr>name = ''foo_cpp'', path = ''mcu/src/foo/foo_cpp'', ignored = False\<rparr>,
         \<lparr>name = ''rcl'', path = ''mcu/src/rcl/rcl'', ignored = False\<rparr>,
         \<lparr>name = ''foo_cpp'', path = ''mcu/src/foo/foo_cpp'', ignored = False\<rparr>,
         \<lparr>name = ''rcl'', path = ''mcu/src/rcl/rcl'', ignored = False\<rparr>]"
  have d: "discovered (scan ?ps) init_registry = ([2, 3], ?h2)"
    by (simp add: discovered_def scan_def init_registry_def upt_rec)
  have m2: "(2::nat) \<in> set [2, 3]" and m3: "(3::nat) \<in> set [2, 3]"
    and l2: "(2::nat) < length ?h2" and l3: "(3::nat) < length ?h2"
    by simp_all
  from auto_ignore_at_discovery [OF d m2 l2, of "[''rcl_logging_spdlog'']"]
  have "ignored (objects (download_repo [''rcl_logging_spdlog''] (scan ?ps) init_registry) ! 2)"
    by (simp add: endswith_def)
  moreover from auto_ignore_at_discovery [OF d m3 l3, of "[''rcl_logging_spdlog'']"]
  have "\<not> ignored (objects (download_repo [''rcl_logging_spdlog''] (scan ?ps) init_registry) ! 3)"
    by (simp add: endswith_def)
  moreover have once: "cached_scan ?ps [] = ([0, 1], ?h1)"
    by (simp add: cached_scan_def find_or_create_def upt_rec)
  have again: "cached_scan ?ps ?h1 = ([0, 1], ?h1)"
    by (simp add: cached_scan_def find_or_create_def upt_rec)
  have rep: "repeatable (cached_scan ?ps) (objects init_registry)"
    by (simp add: repeatable_def init_registry_def once again)
  have dc: "discovered (cached_scan ?ps) init_registry = ([0, 1], ?h1)"
    by (simp add: discovered_def init_registry_def once again)
  have m0: "(0::nat) \<in> set [0, 1]" and l0: "(0::nat) < length ?h1"
    by simp_all
  have list: "mcu_packages (download_repo [''rcl_logging_spdlog''] (cached_scan ?ps) init_registry) = [0, 1]"
    by (simp add: download_repo_def init_registry_def once again)
  from auto_ignore_at_discovery [OF dc m0 l0, of "[''rcl_logging_spdlog'']"] rep
  have "ignored (objects (download_repo [''rcl_logging_spdlog''] (cached_scan ?ps) init_registry) ! 0)"
    and "(0::nat) \<in> set (mcu_packages (download_repo [''rcl_logging_spdlog''] (cached_scan ?ps) init_registry))"
    by (simp_all add: endswith_def)
  ultimately show ?thesis using d rep list by simp
qed

text \<open>
  C5 as stated does not hold for the packages of \<open>self.mcu_packages\<close> when
  \<open>get_packages\<close> creates its objects anew at every call: the package named \<open>foo_cpp\<close>
  that is registered is the object of the first call, and it is not marked.
\<close>

theorem auto_ignore_counterexample:
  "mcu_packages (download_repo [] (scan [(''foo_cpp'', ''mcu/src/foo/foo_cpp'')]) init_registry) = [0]
   \<and> name (objects (download_repo [] (scan [(''foo_cpp'', ''mcu/src/foo/foo_cpp'')]) init_registry) ! 0)
       = ''foo_cpp''
   \<and> ignored (objects (download_repo [] (scan [(''foo_cpp'', ''mcu/src/foo/foo_cpp'')]) init_registry) ! 0)
       = False"
  by (simp add: download_repo_def scan_def init_registry_def mark_discovered_def auto_ignored_def
      endswith_def ignore_def upt_rec)

section \<open>Facts about the environment setup\<close>

lemma py_replace_leading:
  "old \<noteq> [] \<Longrightarrow> py_replace old new (old @ rest) = new @ py_replace old new rest"
  by (simp add: py_replace_def)

lemma py_replace_empty [simp]: "py_replace old [] [] = []"
  by (simp add: py_replace_def)

lemma ros_bin_segment_nonempty [simp]: "ros_bin_segment d \<noteq> []"
  by (simp add: ros_bin_segment_def)

lemma scrub_ros_keeps_rmw:
  "scrub_ros e = Inr e1 \<Longrightarrow> e1 ''RMW_IMPLEMENTATION'' = e ''RMW_IMPLEMENTATION''"
  by (auto simp: scrub_ros_def split: option.splits if_splits)

lemma force_rmw_other:
  "k \<noteq> ''RMW_IMPLEMENTATION'' \<Longrightarrow> force_rmw e k = e k"
  by (simp add: force_rmw_def)

lemma force_rmw_at:
  "force_rmw e ''RMW_IMPLEMENTATION'' =
     (if \<exists>v. e ''RMW_IMPLEMENTATION'' = Some v \<and> v \<noteq> [] then Some ''rmw_microxrcedds''
      else e ''RMW_IMPLEMENTATION'')"
  by (auto simp: force_rmw_def getenv_truthy_def split: option.splits)

lemma scrub_ros_returns:
  assumes "e ''ROS_DISTRO'' = None \<or> e ''ROS_DISTRO'' = Some [] \<or> e ''PATH'' \<noteq> None"
  shows "\<exists>e1. scrub_ros e = Inr e1"
  using assms by (auto simp: scrub_ros_def split: option.splits)

lemma scrub_ros_path:
  assumes "scrub_ros e = Inr e1" and "e ''ROS_DISTRO'' = Some d" and "d \<noteq> []"
    and "e ''PATH'' = Some p"
  shows "e1 ''PATH'' = Some (py_replace (ros_bin_segment d) [] p)"
    and "e1 ''AMENT_PREFIX_PATH'' = None"
  using assms by (auto simp: scrub_ros_def)

text \<open>
  C9, as the code has it.  \<open>check_env\<close> returns whenever \<open>ROS_DISTRO\<close> is unset or empty
  or \<open>PATH\<close> is set, whether or not the cache directory could be made.  When
  \<open>ROS_DISTRO\<close> holds a non-empty name and \<open>PATH\<close> is set, every occurrence of
  \<open>/opt/ros/<name>/bin:\<close>, colon included, is cut out of \<open>PATH\<close> from left to right (a
  leading one in particular) and \<open>AMENT_PREFIX_PATH\<close> is removed.
  \<open>RMW_IMPLEMENTATION\<close> becomes \<open>rmw_microxrcedds\<close> exactly when it was set to a
  non-empty value, and is left as it was otherwise.  When the cache directory setup
  fails, the environment handed to the build commands is the plain copy.
\<close>

theorem check_env_effect:
  assumes "environ s ''ROS_DISTRO'' = None \<or> environ s ''ROS_DISTRO'' = Some []
           \<or> environ s ''PATH'' \<noteq> None"
  shows "\<exists>s'. check_env pycache s = Inr s'
     \<and> (\<forall>d p. environ s ''ROS_DISTRO'' = Some d \<and> d \<noteq> [] \<and> environ s ''PATH'' = Some p \<longrightarrow>
           environ s' ''PATH'' = Some (py_replace (ros_bin_segment d) [] p)
           \<and> (\<forall>rest. p = ros_bin_segment d @ rest \<longrightarrow>
                 environ s' ''PATH'' = Some (py_replace (ros_bin_segment d) [] rest))
           \<and> environ s' ''AMENT_PREFIX_PATH'' = None)
     \<and> environ s' ''RMW_IMPLEMENTATION'' =
         (if \<exists>v. environ s ''RMW_IMPLEMENTATION'' = Some v \<and> v \<noteq> []
          then Some ''rmw_microxrcedds'' else environ s ''RMW_IMPLEMENTATION'')
     \<and> (pycache = None \<longrightarrow> env s' = environ s')"
proof -
  obtain e1 where e1: "scrub_ros (environ s) = Inr e1"
    using scrub_ros_returns [OF assms] by blast
  define s' where "s' = s\<lparr>environ := force_rmw e1, env := redirect_pycache pycache (force_rmw e1)\<rparr>"
  have ret: "check_env pycache s = Inr s'"
    by (simp add: check_env_def e1 s'_def Let_def)
  have env_s': "environ s' = force_rmw e1"
    by (simp add: s'_def)
  have path: "environ s' ''PATH'' = Some (py_replace (ros_bin_segment d) [] p)
      \<and> (\<forall>rest. p = ros_bin_segment d @ rest \<longrightarrow>
            environ s' ''PATH'' = Some (py_replace (ros_bin_segment d) [] rest))
      \<and> environ s' ''AMENT_PREFIX_PATH'' = None"
    if "environ s ''ROS_DISTRO'' = Some d" "d \<noteq> []" "environ s ''PATH'' = Some p" for d p
  proof -
    have "e1 ''PATH'' = Some (py_replace (ros_bin_segment d) [] p)"
      and "e1 ''AMENT_PREFIX_PATH'' = None"
      using scrub_ros_path [OF e1 that] by simp_all
    then show ?thesis
      by (simp add: env_s' force_rmw_other py_replace_leading)
  qed
  have rmw: "environ s' ''RMW_IMPLEMENTATION'' =
         (if \<exists>v. environ s ''RMW_IMPLEMENTATION'' = Some v \<and> v \<noteq> []
          then Some ''rmw_microxrcedds'' else environ s ''RMW_IMPLEMENTATION'')"
    by (simp only: env_s' force_rmw_at scrub_ros_keeps_rmw [OF e1])
  have plain: "pycache = None \<longrightarrow> env s' = environ s'"
    by (simp add: s'_def redirect_pycache_def)
  from ret path rmw plain show ?thesis by blast
qed

theorem check_env_effect_witness:
  "environ env_ros_sourced ''PATH'' \<noteq> None
   \<and> environ env_ros_sourced ''ROS_DISTRO'' = Some ''humble''
   \<and> getenv_after (check_env None env_ros_sourced) ''PATH'' = Inr (Some ''/usr/bin'')
   \<and> getenv_after (check_env None env_ros_sourced) ''AMENT_PREFIX_PATH'' = Inr None
   \<and> getenv_after (check_env None env_ros_sourced) ''RMW_IMPLEMENTATION'' = Inr (Some ''rmw_microxrcedds'')"
proof -
  have path: "environ env_ros_sourced ''PATH'' = Some ''/opt/ros/humble/bin:/usr/bin''"
    and distro: "environ env_ros_sourced ''ROS_DISTRO'' = Some ''humble''"
    and rmw: "environ env_ros_sourced ''RMW_IMPLEMENTATION'' = Some ''rmw_fastrtps_cpp''"
    by (simp_all add: env_ros_sourced_def)
  have pre: "environ env_ros_sourced ''ROS_DISTRO'' = None
      \<or> environ env_ros_sourced ''ROS_DISTRO'' = Some []
      \<or> environ env_ros_sourced ''PATH'' \<noteq> None"
    by (simp add: path)
  from check_env_effect [OF pre, of None] obtain s' where
    ret: "check_env None env_ros_sourced = Inr s'"
    and scrub: "\<forall>d p. environ env_ros_sourced ''ROS_DISTRO'' = Some d \<and> d \<noteq> []
        \<and> environ env_ros_sourced ''PATH'' = Some p \<longrightarrow>
           environ s' ''PATH'' = Some (py_replace (ros_bin_segment d) [] p)
           \<and> (\<forall>rest. p = ros_bin_segment d @ rest \<longrightarrow>
                 environ s' ''PATH'' = Some (py_replace (ros_bin_segment d) [] rest))
           \<and> environ s' ''AMENT_PREFIX_PATH'' = None"
    and forced: "environ s' ''RMW_IMPLEMENTATION'' =
         (if \<exists>v. environ env_ros_sourced ''RMW_IMPLEMENTATION'' = Some v \<and> v \<noteq> []
          then Some ''rmw_microxrcedds'' else environ env_ros_sourced ''RMW_IMPLEMENTATION'')"
    by blast
  from scrub distro path
  have "environ s' ''PATH'' = Some (py_replace (ros_bin_segment ''humble'') [] ''/opt/ros/humble/bin:/usr/bin'')"
    and ament: "environ s' ''AMENT_PREFIX_PATH'' = None"
    by simp_all
  then have p': "environ s' ''PATH'' = Some ''/usr/bin''"
    by (simp add: py_replace_def ros_bin_segment_def)
  from forced rmw have r': "environ s' ''RMW_IMPLEMENTATION'' = Some ''rmw_microxrcedds''"
    by simp
  show ?thesis
    using path distro p' ament r' by (simp add: ret getenv_after_def)
qed

text \<open>
  C9 as stated does not hold.  A variable \<open>RMW_IMPLEMENTATION\<close> that is present with
  the empty value is not forced; with \<open>ROS_DISTRO=humble\<close>, a segment
  \<open>/opt/ros/humble/bin\<close> that ends \<open>PATH\<close> has no colon after it and stays; and with
  \<open>ROS_DISTRO\<close> set and \<open>PATH\<close> unset the call raises.
\<close>

theorem check_env_counterexample:
  "environ env_rmw_empty ''RMW_IMPLEMENTATION'' = Some []
   \<and> getenv_after (check_env None env_rmw_empty) ''RMW_IMPLEMENTATION'' = Inr (Some [])
   \<and> environ env_ros_last ''ROS_DISTRO'' = Some ''humble''
   \<and> getenv_after (check_env None env_ros_last) ''PATH'' = Inr (Some ''/usr/bin:/opt/ros/humble/bin'')
   \<and> environ env_ros_no_path ''ROS_DISTRO'' = Some ''humble''
   \<and> check_env None env_ros_no_path = Inl AttributeError"
  by (simp add: check_env_def getenv_after_def env_rmw_empty_def env_ros_last_def
      env_ros_no_path_def scrub_ros_def force_rmw_def getenv_truthy_def py_replace_def
      ros_bin_segment_def Let_def)

section \<open>Facts about the manifest loader\<close>

lemma dict_get_member:
  assumes "distinct (map (py_key \<circ> fst) kvs)" and "(k, v) \<in> set kvs"
  shows "dict_get kvs k = Some v"
proof -
  have "map fst (map (\<lambda>(k', v). (py_key k', v)) kvs) = map (py_key \<circ> fst) kvs"
    by (induction kvs) auto
  with assms(1) have "distinct (map fst (map (\<lambda>(k', v). (py_key k', v)) kvs))"
    by (simp only:)
  moreover from assms(2) have "(py_key k, v) \<in> set (map (\<lambda>(k', v). (py_key k', v)) kvs)"
    by force
  ultimately show ?thesis
    unfolding dict_get_def by (rule map_of_is_SomeI)
qed

lemma py_getitem_own_key:
  assumes "wf_dict kvs" and "(k, v) \<in> set kvs"
  shows "py_getitem (YMap kvs) k = Inr v"
proof -
  from assms have "hashable k"
    by (auto simp: wf_dict_def list_all_iff)
  moreover from assms have "dict_get kvs k = Some v"
    by (simp add: wf_dict_def dict_get_member)
  ultimately show ?thesis by simp
qed

lemma resolve_entry_dict:
  "resolve_entry (YMap attrs) = (if complete attrs then Inr (repo_of attrs) else Inl KeyError)"
  by (auto simp: resolve_entry_def complete_def repo_of_def split: option.splits bool.splits)

lemma dict_set_new:
  "py_key k \<notin> (py_key \<circ> fst) ` set kvs \<Longrightarrow> dict_set k v kvs = kvs @ [(k, v)]"
  by (induction kvs) auto

lemma load_entries_dicts:
  assumes "\<forall>(p, a) \<in> set es. py_getitem r p = Inr a \<and> is_dict a"
    and "distinct (map (py_key \<circ> fst) es)"
    and "\<forall>(p, a) \<in> set es. py_key p \<notin> (py_key \<circ> fst) ` set acc"
  shows "load_entries r (map fst es) acc = (acc @ resolved es, None)"
  using assms
proof (induction es arbitrary: acc)
  case Nil
  show ?case by simp
next
  case (Cons e es)
  obtain p a where e: "e = (p, a)" by (cases e)
  with Cons.prems(1) obtain attrs where a: "a = YMap attrs" and get: "py_getitem r p = Inr a"
    by (cases a) auto
  have rest: "\<forall>(p, a) \<in> set es. py_getitem r p = Inr a \<and> is_dict a"
    and dist: "distinct (map (py_key \<circ> fst) es)"
    using Cons.prems(1,2) by (simp_all add: comp_def)
  show ?case
  proof (cases "complete attrs")
    case False
    have fresh: "\<forall>(p, a) \<in> set es. py_key p \<notin> (py_key \<circ> fst) ` set acc"
      using Cons.prems(3) by auto
    from False show ?thesis
      by (simp add: e a get [unfolded a] resolve_entry_dict Cons.IH [OF rest dist fresh])
  next
    case True
    have "py_key p \<notin> (py_key \<circ> fst) ` set acc"
      using Cons.prems(3) e by auto
    then have set_p: "dict_set p (repo_of attrs) acc = acc @ [(p, repo_of attrs)]"
      by (rule dict_set_new)
    have fresh: "\<forall>(q, b) \<in> set es. py_key q \<notin> (py_key \<circ> fst) ` set (acc @ [(p, repo_of attrs)])"
      using Cons.prems(2,3) e by force
    from True show ?thesis
      by (simp add: e a get [unfolded a] resolve_entry_dict set_p Cons.IH [OF rest dist fresh])
  qed
qed

lemma load_body_dicts:
  assumes "py_getitem root (YStr ''repositories'') = Inr (YMap entries)"
    and "wf_dict entries" and "list_all (is_dict \<circ> snd) entries"
  shows "load_body (Parsed root) = (resolved entries, None)"
proof (cases "entries = []")
  case True
  with assms(1) show ?thesis by (simp add: load_body_def)
next
  case False
  have "\<forall>(p, a) \<in> set entries. py_getitem (YMap entries) p = Inr a \<and> is_dict a"
    using assms(2,3) py_getitem_own_key [OF assms(2)] by (auto simp: list_all_iff)
  moreover have "distinct (map (py_key \<circ> fst) entries)"
    using assms(2) by (simp add: wf_dict_def)
  ultimately have "load_entries (YMap entries) (map fst entries) [] = ([] @ resolved entries, None)"
    by (intro load_entries_dicts) auto
  with False assms(1) show ?thesis by (simp add: load_body_def)
qed

lemma get_repositories_is_body:
  "get_repositories_from_yaml doc = Inr (fst (load_body doc))"
  by (simp add: get_repositories_from_yaml_def finally_return_def split: prod.splits)

text \<open>
  C3, as the code has it.  For every document the load returns a mapping and never
  raises.  A file that cannot be opened, a text that is not YAML and a document whose
  root has no \<open>repositories\<close> give the empty mapping.  When \<open>repositories\<close> is a mapping
  whose entries are all mappings, the result holds exactly the entries that have both
  \<open>type\<close> and \<open>url\<close>, in the order of the document, each with its \<open>type\<close>, its \<open>url\<close>
  and, when it has one, its \<open>version\<close>; an entry without \<open>type\<close> or \<open>url\<close> is left out
  and the others stay.
\<close>

theorem manifest_load_tolerant:
  "(\<exists>m. get_repositories_from_yaml doc = Inr m)
   \<and> get_repositories_from_yaml Unreadable = Inr []
   \<and> get_repositories_from_yaml Malformed = Inr []
   \<and> ((\<forall>v. py_getitem root (YStr ''repositories'') \<noteq> Inr v) \<longrightarrow>
        get_repositories_from_yaml (Parsed root) = Inr [])
   \<and> (py_getitem root (YStr ''repositories'') = Inr (YMap entries)
        \<and> wf_dict entries \<and> list_all (is_dict \<circ> snd) entries \<longrightarrow>
        get_repositories_from_yaml (Parsed root) = Inr (resolved entries))
   \<and> (\<forall>v. dict_get attrs (YStr ''version'') = Some v \<longrightarrow> map_of (repo_of attrs) ''version'' = Some v)"
proof -
  have returns: "\<exists>m. get_repositories_from_yaml doc = Inr m"
    by (simp add: get_repositories_is_body)
  have unreadable: "get_repositories_from_yaml Unreadable = Inr []"
    and malformed: "get_repositories_from_yaml Malformed = Inr []"
    by (simp_all add: get_repositories_is_body load_body_def)
  have no_key: "(\<forall>v. py_getitem root (YStr ''repositories'') \<noteq> Inr v) \<longrightarrow>
        get_repositories_from_yaml (Parsed root) = Inr []"
    by (cases "py_getitem root (YStr ''repositories'')")
      (simp_all add: get_repositories_is_body load_body_def)
  have dicts: "py_getitem root (YStr ''repositories'') = Inr (YMap entries)
        \<and> wf_dict entries \<and> list_all (is_dict \<circ> snd) entries \<longrightarrow>
        get_repositories_from_yaml (Parsed root) = Inr (resolved entries)"
    by (simp add: get_repositories_is_body load_body_dicts)
  have version: "\<forall>v. dict_get attrs (YStr ''version'') = Some v \<longrightarrow> map_of (repo_of attrs) ''version'' = Some v"
    by (simp add: repo_of_def)
  from returns unreadable malformed no_key dicts version show ?thesis by blast
qed

theorem manifest_load_tolerant_witness:
  "py_getitem manifest_missing_url (YStr ''repositories'') =
     Inr (YMap [(YStr ''pkg_a'', YMap [(YStr ''type'', YStr ''git''), (YStr ''url'', YStr ''https://host/a.git''),
                                       (YStr ''version'', YStr ''humble'')]),
                (YStr ''pkg_b'', YMap [(YStr ''type'', YStr ''git'')]),
                (YStr ''pkg_c'', git_entry ''https://host/c.git'')])
   \<and> get_repositories_from_yaml (Parsed manifest_missing_url) =
       Inr [(YStr ''pkg_a'', [(''type'', YStr ''git''), (''url'', YStr ''https://host/a.git''),
                              (''version'', YStr ''humble'')]),
            (YStr ''pkg_c'', [(''type'', YStr ''git''), (''url'', YStr ''https://host/c.git'')])]"
proof -
  let ?entries = "[(YStr ''pkg_a'', YMap [(YStr ''type'', YStr ''git''), (YStr ''url'', YStr ''https://host/a.git''),
                                       (YStr ''version'', YStr ''humble'')]),
                (YStr ''pkg_b'', YMap [(YStr ''type'', YStr ''git'')]),
                (YStr ''pkg_c'', git_entry ''https://host/c.git'')]"
  have get: "py_getitem manifest_missing_url (YStr ''repositories'') = Inr (YMap ?entries)"
    by (simp add: manifest_missing_url_def dict_get_def)
  have wf: "wf_dict ?entries"
    by (simp add: wf_dict_def)
  have dicts: "list_all (is_dict \<circ> snd) ?entries"
    by (simp add: git_entry_def)
  from manifest_load_tolerant [of "Parsed manifest_missing_url" manifest_missing_url ?entries "[]"]
    get wf dicts
  have "get_repositories_from_yaml (Parsed manifest_missing_url) = Inr (resolved ?entries)"
    by blast
  moreover have "resolved ?entries =
      [(YStr ''pkg_a'', [(''type'', YStr ''git''), (''url'', YStr ''https://host/a.git''),
                         (''version'', YStr ''humble'')]),
       (YStr ''pkg_c'', [(''type'', YStr ''git''), (''url'', YStr ''https://host/c.git'')])]"
    by (simp add: git_entry_def complete_def repo_of_def dict_get_def)
  ultimately show ?thesis using get by simp
qed

text \<open>
  C3 as stated does not hold: in a manifest of three entries whose first entry is empty
  (it has neither \<open>type\<close> nor \<open>url\<close>), the subscript on \<open>None\<close> raises \<open>TypeError\<close>, which
  the inner handler does not catch; the loop ends and the two complete entries after it
  are not loaded.
\<close>

theorem manifest_load_counterexample:
  "get_repositories_from_yaml (Parsed manifest_null_entry) = Inr []"
  by (simp add: get_repositories_from_yaml_def finally_return_def load_body_def
      manifest_null_entry_def git_entry_def dict_get_def resolve_entry_def)

section \<open>Facts about copying trees and the overlay\<close>








lemma lookup_update:
  "lookup (Dir (AList.update n v ds)) (h # r) =
     (if h = n then lookup v r else lookup (Dir ds) (h # r))"
  by (simp add: update_conv')

lemma lookup_file_below: "r \<noteq> [] \<Longrightarrow> lookup (File c) r = None"
  by (cases r) simp_all





lemma lookup_file_snoc [simp]: "lookup (File c) (r @ [m]) = None"
  by (cases r) simp_all

lemma lookup_empty_snoc [simp]: "lookup (Dir []) (r @ [m]) = None"
  by (cases r) simp_all






section \<open>Facts about the include-flatten step\<close>

lemma keys_update_present:
  "map_of al k = Some v \<Longrightarrow> map fst (AList.update k v' al) = map fst al"
  by (simp add: update_keys) (metis domI dom_map_of_conv_image_fst)

lemma flatten_folder_ok:
  assumes "flatten_folder d inc = (inc1, None)"
  shows "\<not> nested d inc1" and "map fst inc1 = map fst inc"
    and "e \<noteq> d \<Longrightarrow> map_of inc1 e = map_of inc e"
  using assms
  by (auto simp: flatten_folder_def nested_def update_conv' delete_conv' keys_update_present
      split: option.splits node.splits prod.splits if_splits)

lemma flatten_folder_flat:
  "\<not> nested d inc \<Longrightarrow> flatten_folder d inc = (inc, None)"
  by (auto simp: flatten_folder_def nested_def split: option.splits node.splits)

lemma flatten_folder_keeps_flat:
  assumes "flatten_folder d inc = (inc1, None)" and "\<not> nested e inc"
  shows "\<not> nested e inc1"
proof (cases "e = d")
  case True
  with flatten_folder_ok(1) [OF assms(1)] show ?thesis by simp
next
  case False
  with flatten_folder_ok(3) [OF assms(1), of e] assms(2) show ?thesis
    by (simp add: nested_def)
qed

lemma flatten_loop_ok:
  assumes "flatten_loop fs inc = (inc1, None)"
  shows "map fst inc1 = map fst inc \<and> (\<forall>d \<in> set fs. \<not> nested d inc1)
    \<and> (\<forall>e. \<not> nested e inc \<longrightarrow> \<not> nested e inc1)"
  using assms
proof (induction fs arbitrary: inc)
  case Nil
  then show ?case by simp
next
  case (Cons d fs)
  obtain inc0 r where step: "flatten_folder d inc = (inc0, r)"
    by (cases "flatten_folder d inc")
  with Cons.prems have r: "r = None" and rest: "flatten_loop fs inc0 = (inc1, None)"
    by (auto split: option.splits)
  note first = flatten_folder_ok(1,2) [OF step [unfolded r]]
  note keeps = flatten_folder_keeps_flat [OF step [unfolded r]]
  from Cons.IH [OF rest] first keeps show ?case
    by auto
qed

lemma flatten_loop_flat:
  "\<forall>d \<in> set fs. \<not> nested d inc \<Longrightarrow> flatten_loop fs inc = (inc, None)"
  by (induction fs) (simp_all add: flatten_folder_flat)

text \<open>
  C2.  The include-flatten step is idempotent: when a pass over an include tree
  completes, a second pass over the resulting tree completes as well and leaves that
  tree as it is, so that running the step twice gives the tree that running it once
  gives.  After a pass no immediate subdirectory \<open>D\<close> has an entry \<open>D/D\<close>.
\<close>

theorem flatten_idempotent:
  assumes "flatten_includes inc = (inc1, None)"
  shows "flatten_includes inc1 = (inc1, None) \<and> (\<forall>d \<in> fst ` set inc1. \<not> nested d inc1)"
proof -
  from flatten_loop_ok [OF assms [unfolded flatten_includes_def]]
  have keys: "map fst inc1 = map fst inc" and flat: "\<forall>d \<in> set (map fst inc). \<not> nested d inc1"
    by simp_all
  from flat keys have all_flat: "\<forall>d \<in> set (map fst inc1). \<not> nested d inc1"
    by simp
  then have "flatten_loop (map fst inc1) inc1 = (inc1, None)"
    by (rule flatten_loop_flat)
  with all_flat show ?thesis
    by (simp add: flatten_includes_def)
qed

theorem flatten_idempotent_witness:
  "flatten_includes include_tree = (flat_tree, None)
   \<and> flatten_includes flat_tree = (flat_tree, None)"
proof -
  have once: "flatten_includes include_tree = (flat_tree, None)"
    by (simp add: flatten_includes_def include_tree_def flat_tree_def flatten_folder_def set_child_def)
  from flatten_idempotent [OF once] once show ?thesis by blast
qed

section \<open>Facts about the merge\<close>



lemma unstage [simp]: "original_name f (staged_name f obj) = obj"
  by (simp add: staged_name_def original_name_def)

lemma staged_name_inj [simp]: "staged_name f a = staged_name f b \<longleftrightarrow> a = b"
  by (simp add: staged_name_def)




















lemma staged_name_differs:
  "archive_stem f \<noteq> archive_stem g \<Longrightarrow> staged_name f n \<noteq> staged_name g n"
  by (simp add: staged_name_def)






lemma lib_file_install_includes [simp]:
  "lib_file (snd (install_includes ho w)) = lib_file w"
  by (simp add: install_includes_def split: sum.splits node.splits prod.splits option.splits)




lemma lib_file_archive_command [simp]: "lib_file (archive_command tools w) = lib_file w"
  by (simp add: archive_command_def Let_def)


















text \<open>
  C6.  If the merged library exists when \<open>run\<close> is called, the call returns at once: it
  prints one line and leaves the package lists, the environments, the files and
  everything outside as they were, whatever the collaborators would do.
\<close>

theorem run_cached:
  assumes "lib_file (world b) \<noteq> None"
  shows "run co b = (None, b\<lparr>printed := printed b @ [''micro-ROS already built'']\<rparr>)
    \<and> reg (snd (run co b)) = reg b \<and> proc (snd (run co b)) = proc b
    \<and> world (snd (run co b)) = world b \<and> outside (snd (run co b)) = outside b"
  using assms by (simp add: run_def)


theorem run_cached_witness:
  "lib_file (world built_state) = Some [(''old.obj'', ''previous build'')]
   \<and> run tracing built_state = (None, built_state\<lparr>printed := [''micro-ROS already built'']\<rparr>)
   \<and> outside (snd (run tracing built_state)) = []
   \<and> outside (snd (run tracing (built_state\<lparr>world := (world built_state)\<lparr>lib_file := None\<rparr>\<rparr>))) =
       [''clone dev'', ''colcon build dev'', ''clone mcu'', ''colcon build mcu'']"
proof -
  have built: "lib_file (world built_state) \<noteq> None"
    and old: "lib_file (world built_state) = Some [(''old.obj'', ''previous build'')]"
    by (simp_all add: built_state_def built_world_def)
  from run_cached [OF built, of tracing]
  have "run tracing built_state = (None, built_state\<lparr>printed := printed built_state @ [''micro-ROS already built'']\<rparr>)"
    and same: "outside (snd (run tracing built_state)) = outside built_state"
    by blast+
  then have cached: "run tracing built_state = (None, built_state\<lparr>printed := [''micro-ROS already built'']\<rparr>)"
    and none: "outside (snd (run tracing built_state)) = []"
    by (simp_all add: built_state_def)
  have full: "outside (snd (run tracing (built_state\<lparr>world := (world built_state)\<lparr>lib_file := None\<rparr>\<rparr>))) =
       [''clone dev'', ''colcon build dev'', ''clone mcu'', ''colcon build mcu'']"
    by (simp add: run_def built_state_def and_then_def check_env_step_def tracing_def traced_def
        check_env_def env_ros_sourced_def scrub_ros_def Let_def package_step_def
        split: prod.splits)
  from old cached none full show ?thesis by blast
qed

end
